theory Spec2Isabelle
  imports Main "HOL-Library.Multiset" "HOL-Library.Sublist" "HOL-Library.AList"
begin

section \<open>Go values used by the provider code\<close>

text \<open>
  A Go slice is either \<open>nil\<close> or a sequence of elements; \<open>len\<close> of both the nil slice
  and the empty slice is 0, but only the first compares equal to \<open>nil\<close>. The caller of the
  chunking function loops on \<open>parameters != nil\<close>, so the difference is kept:
  \<open>None\<close> is the nil slice.
\<close>

type_synonym 'a slice = "'a list option"

fun elems :: "'a slice \<Rightarrow> 'a list" where
  "elems None = []"
| "elems (Some xs) = xs"

definition len :: "'a slice \<Rightarrow> nat" where
  "len s = length (elems s)"

text \<open>
  \<open>append(s, xs...)\<close>: appending no element gives back \<open>s\<close> itself (nil stays nil),
  appending at least one element gives a non-nil slice. In the code below the
  destination is always a slice that the function built itself, so the result never
  shares its backing array with the input.
\<close>

definition go_append :: "'a slice \<Rightarrow> 'a list \<Rightarrow> 'a slice" where
  "go_append s xs = (if xs = [] then s else Some (elems s @ xs))"

text \<open>Run-time panics of the Go code are values of the model.\<close>

datatype panic = NilPointerDereference | IndexOutOfRange | TypeAssertionFailed

text \<open>\<open>aws.StringValue\<close>: the string a \<open>*string\<close> points to, or the empty string for nil.\<close>

fun StringValue :: "string option \<Rightarrow> string" where
  "StringValue None = []"
| "StringValue (Some s) = s"

text \<open>\<open>strings.HasPrefix\<close> and \<open>strings.Contains\<close> on byte strings.\<close>

fun HasPrefix :: "string \<Rightarrow> string \<Rightarrow> bool" where
  "HasPrefix s [] = True"
| "HasPrefix [] (c # cs) = False"
| "HasPrefix (x # xs) (c # cs) = (x = c \<and> HasPrefix xs cs)"

fun Contains :: "string \<Rightarrow> string \<Rightarrow> bool" where
  "Contains [] substr = (substr = [])"
| "Contains (x # xs) substr = (HasPrefix (x # xs) substr \<or> Contains xs substr)"

section \<open>RDS parameter group: chunking the parameters to modify\<close>

text \<open>
  The fields of \<open>rds.Parameter\<close> that the provider sets (\<open>expandParameters\<close>) and reads.
  Each is a \<open>*string\<close>.
\<close>

record Parameter =
  ParameterName :: "string option"
  ParameterValue :: "string option"
  ApplyMethod :: "string option"

text \<open>
  The slices hold pointers \<open>*rds.Parameter\<close>: \<open>None\<close> is the nil pointer, whose
  field access panics.
\<close>

type_synonym ptr = "Parameter option"

text \<open>The outcome of one \<open>for i, p := range all\<close> loop of the function.\<close>

datatype flow =
    Panicked
  | Returned "ptr slice" "ptr slice"
  | Completed "ptr slice" "ptr slice"

text \<open>
  Pass 1. The list argument is \<open>all[i:]\<close>, the part of \<open>all\<close> the loop has not visited yet.
\<close>

fun pass1 :: "int \<Rightarrow> ptr list \<Rightarrow> ptr slice \<Rightarrow> ptr slice \<Rightarrow> flow" where
  "pass1 maxChunkSize [] modifyChunk remainder = Completed modifyChunk remainder"
| "pass1 maxChunkSize (p # rest) modifyChunk remainder =
     (if int (len modifyChunk) \<ge> maxChunkSize
      then Returned modifyChunk (go_append remainder (p # rest))
      else (case p of
              None \<Rightarrow> Panicked
            | Some q \<Rightarrow>
                if Contains (StringValue (ParameterName q)) ''character_set''
                   \<and> StringValue (ApplyMethod q) \<noteq> ''pending-reboot''
                then pass1 maxChunkSize rest (go_append modifyChunk [p]) remainder
                else pass1 maxChunkSize rest modifyChunk (go_append remainder [p])))"

text \<open>Pass 2 - avoid pending reboot.\<close>

fun pass2 :: "int \<Rightarrow> ptr list \<Rightarrow> ptr slice \<Rightarrow> ptr slice \<Rightarrow> flow" where
  "pass2 maxChunkSize [] modifyChunk remainder = Completed modifyChunk remainder"
| "pass2 maxChunkSize (p # rest) modifyChunk remainder =
     (if int (len modifyChunk) \<ge> maxChunkSize
      then Returned modifyChunk (go_append remainder (p # rest))
      else (case p of
              None \<Rightarrow> Panicked
            | Some q \<Rightarrow>
                if StringValue (ApplyMethod q) \<noteq> ''pending-reboot''
                then pass2 maxChunkSize rest (go_append modifyChunk [p]) remainder
                else pass2 maxChunkSize rest modifyChunk (go_append remainder [p])))"

text \<open>Pass 3 - everything else. The pointer is stored, never dereferenced.\<close>

fun pass3 :: "int \<Rightarrow> ptr list \<Rightarrow> ptr slice \<Rightarrow> ptr slice \<Rightarrow> flow" where
  "pass3 maxChunkSize [] modifyChunk remainder = Completed modifyChunk remainder"
| "pass3 maxChunkSize (p # rest) modifyChunk remainder =
     (if int (len modifyChunk) \<ge> maxChunkSize
      then Returned modifyChunk (go_append remainder (p # rest))
      else pass3 maxChunkSize rest (go_append modifyChunk [p]) remainder)"

definition ResourceParameterModifyChunk ::
    "ptr slice \<Rightarrow> int \<Rightarrow> panic + (ptr slice \<times> ptr slice)" where
  "ResourceParameterModifyChunk all maxChunkSize =
     (if int (len all) \<le> maxChunkSize then Inr (all, None)
      else
        (case pass1 maxChunkSize (elems all) None None of
           Panicked \<Rightarrow> Inl NilPointerDereference
         | Returned modifyChunk remainder \<Rightarrow> Inr (modifyChunk, remainder)
         | Completed modifyChunk remainder \<Rightarrow>
             (case pass2 maxChunkSize (elems remainder) modifyChunk None of
                Panicked \<Rightarrow> Inl NilPointerDereference
              | Returned modifyChunk remainder \<Rightarrow> Inr (modifyChunk, remainder)
              | Completed modifyChunk remainder \<Rightarrow>
                  (case pass3 maxChunkSize (elems remainder) modifyChunk None of
                     Panicked \<Rightarrow> Inl NilPointerDereference
                   | Returned modifyChunk remainder \<Rightarrow> Inr (modifyChunk, remainder)
                   | Completed modifyChunk remainder \<Rightarrow> Inr (modifyChunk, remainder)))))"

text \<open>
  The conditions the passes test, as predicates on a pointer, and the order of the
  three classes they induce. \<open>prioritized\<close> lists the elements class by class, each
  class in arrival order.
\<close>

definition charset_immediate :: "ptr \<Rightarrow> bool" where
  "charset_immediate p =
     (case p of
        None \<Rightarrow> False
      | Some q \<Rightarrow> Contains (StringValue (ParameterName q)) ''character_set''
                   \<and> StringValue (ApplyMethod q) \<noteq> ''pending-reboot'')"

definition pending_reboot :: "ptr \<Rightarrow> bool" where
  "pending_reboot p =
     (case p of None \<Rightarrow> False | Some q \<Rightarrow> StringValue (ApplyMethod q) = ''pending-reboot'')"

definition priority :: "ptr \<Rightarrow> nat" where
  "priority p = (if charset_immediate p then 0 else if \<not> pending_reboot p then 1 else 2)"

definition prioritized :: "ptr list \<Rightarrow> ptr list" where
  "prioritized xs =
     filter (\<lambda>p. priority p = 0) xs @ filter (\<lambda>p. priority p = 1) xs
       @ filter (\<lambda>p. priority p = 2) xs"

text \<open>A slice of parameters is well formed when none of its pointers is nil.\<close>

definition well_formed :: "ptr slice \<Rightarrow> bool" where
  "well_formed s = (\<forall>p \<in> set (elems s). p \<noteq> None)"

text \<open>
  A pass over \<open>cur\<close> that is cut at index \<open>i\<close>, with \<open>prev\<close> selected by the passes before
  it: the batch is \<open>prev\<close> and the selected elements before the cut; the remainder is
  the elements skipped before the cut, then the unscanned tail \<open>cur[i:]\<close>.
\<close>

definition cut_at ::
    "(ptr \<Rightarrow> bool) \<Rightarrow> ptr list \<Rightarrow> ptr list \<Rightarrow> nat \<Rightarrow> ptr list \<times> ptr list" where
  "cut_at sel prev cur i =
     (prev @ filter sel (take i cur), filter (\<lambda>p. \<not> sel p) (take i cur) @ drop i cur)"

text \<open>
  The three loops have one shape; \<open>scan\<close> is that shape with the test as a parameter
  (\<open>None\<close> when the test dereferences a nil pointer). It is used in the proofs only.
\<close>

fun scan :: "(ptr \<Rightarrow> bool option) \<Rightarrow> int \<Rightarrow> ptr list \<Rightarrow> ptr slice \<Rightarrow> ptr slice \<Rightarrow> flow" where
  "scan sel K [] c r = Completed c r"
| "scan sel K (p # rest) c r =
     (if int (len c) \<ge> K then Returned c (go_append r (p # rest))
      else (case sel p of
              None \<Rightarrow> Panicked
            | Some True \<Rightarrow> scan sel K rest (go_append c [p]) r
            | Some False \<Rightarrow> scan sel K rest c (go_append r [p])))"

definition sel1 :: "ptr \<Rightarrow> bool option" where
  "sel1 p = map_option (\<lambda>q. Contains (StringValue (ParameterName q)) ''character_set''
                \<and> StringValue (ApplyMethod q) \<noteq> ''pending-reboot'') p"

definition sel2 :: "ptr \<Rightarrow> bool option" where
  "sel2 p = map_option (\<lambda>q. StringValue (ApplyMethod q) \<noteq> ''pending-reboot'') p"

section \<open>Errors\<close>

text \<open>
  Go errors: an AWS API error with its code and message, \<open>fmt.Errorf\<close> wrapping an
  error with \<open>%w\<close>, a plain error text, and the plugin SDK's \<open>resource.TimeoutError\<close>
  with its \<open>LastError\<close>. The typed faults of the newer AWS SDK are AWS errors named by
  their code.
\<close>

datatype error =
    AwsError string string
  | Errorf string error
  | ErrorString string
  | TimeoutError "error option"

fun ErrCode :: "error \<Rightarrow> string option" where
  "ErrCode (AwsError code message) = Some code"
| "ErrCode (Errorf message e) = ErrCode e"
| "ErrCode (ErrorString message) = None"
| "ErrCode (TimeoutError None) = None"
| "ErrCode (TimeoutError (Some e)) = ErrCode e"

text \<open>\<open>tfawserr.ErrCodeEquals\<close> (and \<open>errs.IsA\<close> for a typed fault): false on a nil error.\<close>

fun ErrCodeEquals :: "error option \<Rightarrow> string \<Rightarrow> bool" where
  "ErrCodeEquals None code = False"
| "ErrCodeEquals (Some e) code = (ErrCode e = Some code)"

section \<open>RDS parameter group: the update loop\<close>

definition maxParamModifyChunk :: int where
  "maxParamModifyChunk = 20"

text \<open>
  The loop \<open>for parameters != nil\<close> of \<open>resourceParameterGroupUpdate\<close>. The connection is
  the answer of \<open>ModifyDBParameterGroup\<close> to a request, given the requests sent before
  it; \<open>sent\<close> is the list of batches sent so far. The loop may not return (for a chunk
  size below 1 the remainder never shrinks), so its value is an option.
\<close>

type_synonym rdsconn = "ptr slice list \<Rightarrow> ptr slice \<Rightarrow> error option"

partial_function (option) modifyLoop ::
    "rdsconn \<Rightarrow> int \<Rightarrow> ptr slice \<Rightarrow> ptr slice list
       \<Rightarrow> ((panic + error option) \<times> ptr slice list) option" where
  "modifyLoop conn maxChunkSize parameters sent =
     (case parameters of
        None \<Rightarrow> Some (Inr None, sent)
      | Some _ \<Rightarrow>
          (case ResourceParameterModifyChunk parameters maxChunkSize of
             Inl pn \<Rightarrow> Some (Inl pn, sent)
           | Inr (paramsToModify, parameters') \<Rightarrow>
               (case conn sent paramsToModify of
                  Some e \<Rightarrow>
                    Some (Inr (Some (Errorf ''modifying DB Parameter Group'' e)),
                          sent @ [paramsToModify])
                | None \<Rightarrow> modifyLoop conn maxChunkSize parameters' (sent @ [paramsToModify]))))"

definition modifyParameters ::
    "rdsconn \<Rightarrow> ptr slice \<Rightarrow> ((panic + error option) \<times> ptr slice list) option" where
  "modifyParameters conn parameters =
     (if len parameters > 0 then modifyLoop conn maxParamModifyChunk parameters []
      else Some (Inr None, []))"

text \<open>The number of batches the loop sends when no request fails.\<close>

definition batch_count :: "int \<Rightarrow> ptr slice \<Rightarrow> nat" where
  "batch_count K parameters =
     (if parameters = None then 0 else Suc ((len parameters - 1) div nat K))"

section \<open>Resource data of the plugin SDK\<close>

text \<open>Values of type \<open>interface{}\<close>, as the schema hands them to the resource functions.\<close>

datatype iface =
    IfNil
  | IfString string
  | IfInt int
  | IfBool bool
  | IfList "iface list"
  | IfMap "(string \<times> iface) list"

record ResourceData =
  Id :: string
  IsNewResource :: bool
  attributes :: "(string \<times> iface) list"

definition SetId :: "string \<Rightarrow> ResourceData \<Rightarrow> ResourceData" where
  "SetId v d = d\<lparr>Id := v\<rparr>"

definition Set_attr :: "string \<Rightarrow> iface \<Rightarrow> ResourceData \<Rightarrow> ResourceData" where
  "Set_attr key v d = d\<lparr>attributes := AList.update key v (attributes d)\<rparr>"

definition Get :: "ResourceData \<Rightarrow> string \<Rightarrow> iface" where
  "Get d key = (case map_of (attributes d) key of None \<Rightarrow> IfNil | Some v \<Rightarrow> v)"

fun is_zero :: "iface \<Rightarrow> bool" where
  "is_zero IfNil = True"
| "is_zero (IfString s) = (s = [])"
| "is_zero (IfInt i) = (i = 0)"
| "is_zero (IfBool b) = (\<not> b)"
| "is_zero (IfList xs) = (xs = [])"
| "is_zero (IfMap kvs) = (kvs = [])"

definition GetOk :: "ResourceData \<Rightarrow> string \<Rightarrow> iface \<times> bool" where
  "GetOk d key = (Get d key, \<not> is_zero (Get d key))"

fun of_string_ptr :: "string option \<Rightarrow> iface" where
  "of_string_ptr None = IfNil"
| "of_string_ptr (Some s) = IfString s"

fun of_bool_ptr :: "bool option \<Rightarrow> iface" where
  "of_bool_ptr None = IfNil"
| "of_bool_ptr (Some b) = IfBool b"

fun of_int_ptr :: "int option \<Rightarrow> iface" where
  "of_int_ptr None = IfNil"
| "of_int_ptr (Some i) = IfInt i"

fun Int64Value :: "int option \<Rightarrow> int" where
  "Int64Value None = 0"
| "Int64Value (Some i) = i"

text \<open>\<open>strings.Split\<close> with a separator of one byte.\<close>

fun Split :: "string \<Rightarrow> char \<Rightarrow> string list" where
  "Split [] sep = [[]]"
| "Split (x # xs) sep =
     (if x = sep then [] # Split xs sep
      else (case Split xs sep of [] \<Rightarrow> [[x]] | y # ys \<Rightarrow> (x # y) # ys))"

text \<open>
  The request of \<open>CreateIpam\<close> (each operating region is given by its \<open>RegionName\<close>), and
  the remote calls a resource function makes, in order.
\<close>

record CreateIpamInput =
  ClientToken :: "string option"
  CreateIpam_Description :: "string option"
  CreateIpam_OperatingRegions :: "string option list"

datatype call =
    CallCreateIpam CreateIpamInput
  | CallDescribeIpams string
  | CallDeleteIpam string
  | CallWaitIpamDeleted string

section \<open>IPAM\<close>

definition IpamStatusAvailable :: string where
  "IpamStatusAvailable = ''Available''"

definition InvalidIpamIdNotFound :: string where
  "InvalidIpamIdNotFound = ''InvalidIpamId.NotFound''"

record IpamOperatingRegion =
  RegionName :: "string option"

record Ipam =
  IpamId :: "string option"
  IpamArn :: "string option"
  Description :: "string option"
  OperatingRegions :: "IpamOperatingRegion option list"
  PublicDefaultScopeId :: "string option"
  PrivateDefaultScopeId :: "string option"
  ScopeCount :: "int option"

record DescribeIpamsOutput =
  Ipams :: "Ipam option list"

record CreateIpamOutput =
  CreateIpamOutput_Ipam :: "Ipam option"

text \<open>
  A resource function makes each remote call at most once, so the connection is given by
  its answers: the pair \<open>(output, err)\<close> that the call returns.
\<close>

definition findIpamById ::
    "DescribeIpamsOutput option \<times> error option \<Rightarrow> Ipam option \<times> error option" where
  "findIpamById describeIpams =
     (case describeIpams of
        (output, Some e) \<Rightarrow> (None, Some e)
      | (None, None) \<Rightarrow> (None, None)
      | (Some out, None) \<Rightarrow>
          (case Ipams out of
             [] \<Rightarrow> (None, None)
           | None # rest \<Rightarrow> (None, None)
           | Some ipam # rest \<Rightarrow> (Some ipam, None)))"

fun flattenAwsIpamOperatingRegion :: "IpamOperatingRegion option \<Rightarrow> panic + iface" where
  "flattenAwsIpamOperatingRegion None = Inl NilPointerDereference"
| "flattenAwsIpamOperatingRegion (Some operatingRegion) =
     (case RegionName operatingRegion of
        None \<Rightarrow> Inl NilPointerDereference
      | Some name \<Rightarrow> Inr (IfMap [(''region_name'', IfString name)]))"

fun flattenAwsIpamOperatingRegions ::
    "IpamOperatingRegion option list \<Rightarrow> panic + iface list" where
  "flattenAwsIpamOperatingRegions [] = Inr []"
| "flattenAwsIpamOperatingRegions (operatingRegion # rest) =
     (case flattenAwsIpamOperatingRegion operatingRegion of
        Inl pn \<Rightarrow> Inl pn
      | Inr region \<Rightarrow>
          (case flattenAwsIpamOperatingRegions rest of
             Inl pn \<Rightarrow> Inl pn
           | Inr regions \<Rightarrow> Inr (region # regions)))"

definition resourceAwsVpcIpamRead ::
    "DescribeIpamsOutput option \<times> error option \<Rightarrow> ResourceData
       \<Rightarrow> panic + (ResourceData \<times> error option)" where
  "resourceAwsVpcIpamRead describeIpams d =
     (case findIpamById describeIpams of (ipam, e) \<Rightarrow>
        if e \<noteq> None \<and> \<not> ErrCodeEquals e InvalidIpamIdNotFound then Inr (d, e)
        else if \<not> IsNewResource d \<and> ipam = None then Inr (SetId [] d, None)
        else
          (case ipam of
             None \<Rightarrow> Inl NilPointerDereference
           | Some i \<Rightarrow>
               (case flattenAwsIpamOperatingRegions (OperatingRegions i) of
                  Inl pn \<Rightarrow> Inl pn
                | Inr regions \<Rightarrow>
                    Inr ((Set_attr ''scope_count'' (IfInt (Int64Value (ScopeCount i)))
                          \<circ> Set_attr ''private_default_scope_id''
                              (of_string_ptr (PrivateDefaultScopeId i))
                          \<circ> Set_attr ''public_default_scope_id''
                              (of_string_ptr (PublicDefaultScopeId i))
                          \<circ> Set_attr ''operating_regions'' (IfList regions)
                          \<circ> Set_attr ''description'' (of_string_ptr (Description i))
                          \<circ> Set_attr ''arn'' (of_string_ptr (IpamArn i))) d, None))))"

text \<open>
  The type assertions \<open>regionRaw.(map[string]interface{})\<close> and
  \<open>region["region_name"].(string)\<close> panic on a value of another type.
\<close>

fun expandAwsIpamOperatingRegionsDefaultRegion :: "iface list \<Rightarrow> string \<Rightarrow> panic + bool" where
  "expandAwsIpamOperatingRegionsDefaultRegion [] current_region = Inr False"
| "expandAwsIpamOperatingRegionsDefaultRegion (regionRaw # rest) current_region =
     (case regionRaw of
        IfMap region \<Rightarrow>
          (case map_of region ''region_name'' of
             Some (IfString name) \<Rightarrow>
               if name = current_region then Inr True
               else expandAwsIpamOperatingRegionsDefaultRegion rest current_region
           | _ \<Rightarrow> Inl TypeAssertionFailed)
      | _ \<Rightarrow> Inl TypeAssertionFailed)"

fun expandAwsIpamOperatingRegion :: "iface \<Rightarrow> panic + string option" where
  "expandAwsIpamOperatingRegion (IfMap operatingRegion) =
     (case map_of operatingRegion ''region_name'' of
        Some (IfString name) \<Rightarrow> Inr (Some name)
      | _ \<Rightarrow> Inl TypeAssertionFailed)"
| "expandAwsIpamOperatingRegion _ = Inl TypeAssertionFailed"

fun expandAwsIpamOperatingRegions :: "iface list \<Rightarrow> panic + string option list" where
  "expandAwsIpamOperatingRegions [] = Inr []"
| "expandAwsIpamOperatingRegions (regionRaw # rest) =
     (case expandAwsIpamOperatingRegion regionRaw of
        Inl pn \<Rightarrow> Inl pn
      | Inr region \<Rightarrow>
          (case expandAwsIpamOperatingRegions rest of
             Inl pn \<Rightarrow> Inl pn
           | Inr regions \<Rightarrow> Inr (region # regions)))"

text \<open>
  Create. \<open>token\<close> is the value of \<open>resource.UniqueId()\<close>. The result is the outcome and
  the remote calls made, in order.
\<close>

definition resourceAwsVpcIpamCreate ::
    "CreateIpamOutput option \<times> error option \<Rightarrow> DescribeIpamsOutput option \<times> error option
       \<Rightarrow> string \<Rightarrow> string \<Rightarrow> ResourceData
       \<Rightarrow> (panic + (ResourceData \<times> error option)) \<times> call list" where
  "resourceAwsVpcIpamCreate createIpam describeIpams current_region token d =
     (case (case GetOk d ''description'' of
              (v, False) \<Rightarrow> Inr None
            | (IfString v, True) \<Rightarrow> Inr (Some v)
            | (_, True) \<Rightarrow> Inl TypeAssertionFailed) of
        Inl pn \<Rightarrow> (Inl pn, [])
      | Inr description \<Rightarrow>
          (case Get d ''operating_regions'' of
             IfList operatingRegions \<Rightarrow>
               (case expandAwsIpamOperatingRegionsDefaultRegion operatingRegions current_region of
                  Inl pn \<Rightarrow> (Inl pn, [])
                | Inr False \<Rightarrow>
                    (Inr (d, Some (ErrorString (''Must include ('' @ current_region
                                      @ '') as a operating_region''))), [])
                | Inr True \<Rightarrow>
                    (case expandAwsIpamOperatingRegions operatingRegions of
                       Inl pn \<Rightarrow> (Inl pn, [])
                     | Inr regions \<Rightarrow>
                         (let input = \<lparr>ClientToken = Some token,
                                       CreateIpam_Description = description,
                                       CreateIpam_OperatingRegions = regions\<rparr>
                          in case createIpam of
                               (output, Some e) \<Rightarrow>
                                 (Inr (d, Some (Errorf ''Error creating ipam'' e)),
                                  [CallCreateIpam input])
                             | (None, None) \<Rightarrow>
                                 (Inl NilPointerDereference, [CallCreateIpam input])
                             | (Some out, None) \<Rightarrow>
                                 (case CreateIpamOutput_Ipam out of
                                    None \<Rightarrow> (Inl NilPointerDereference, [CallCreateIpam input])
                                  | Some ipam \<Rightarrow>
                                      (let d' = SetId (StringValue (IpamId ipam)) d
                                       in (resourceAwsVpcIpamRead describeIpams d',
                                           [CallCreateIpam input, CallDescribeIpams (Id d')]))))))
           | _ \<Rightarrow> (Inl TypeAssertionFailed, [])))"

text \<open>
  Delete. \<open>deleteIpam\<close> is the error of the \<open>DeleteIpam\<close> call, \<open>waitIpamDeleted\<close> the error
  that \<open>waiterIpamDeleted\<close> returns when it is called.
\<close>

definition resourceAwsVpcIpamDelete ::
    "error option \<Rightarrow> error option \<Rightarrow> ResourceData \<Rightarrow> error option \<times> call list" where
  "resourceAwsVpcIpamDelete deleteIpam waitIpamDeleted d =
     (case deleteIpam of
        Some e \<Rightarrow>
          (Some (Errorf (''error deleting IPAM: ('' @ Id d @ '')'') e), [CallDeleteIpam (Id d)])
      | None \<Rightarrow>
          (case waitIpamDeleted of
             Some e \<Rightarrow>
               if ErrCodeEquals (Some e) InvalidIpamIdNotFound
               then (None, [CallDeleteIpam (Id d), CallWaitIpamDeleted (Id d)])
               else (Some (Errorf (''error waiting for IPAM ('' @ Id d @ '') to be deleted'') e),
                     [CallDeleteIpam (Id d), CallWaitIpamDeleted (Id d)])
           | None \<Rightarrow> (None, [CallDeleteIpam (Id d), CallWaitIpamDeleted (Id d)])))"

section \<open>IPAM scope\<close>

definition InvalidIpamScopeIdNotFound :: string where
  "InvalidIpamScopeIdNotFound = ''InvalidIpamScopeId.NotFound''"

record IpamScope =
  IpamScopeId :: "string option"
  IpamScopeArn :: "string option"
  IpamScope_Description :: "string option"
  IpamScope_IpamArn :: "string option"
  IpamScopeType :: "string option"
  IsDefault :: "bool option"
  PoolCount :: "int option"

record DescribeIpamScopesOutput =
  IpamScopes :: "IpamScope option list"

definition findIpamScopeById ::
    "DescribeIpamScopesOutput option \<times> error option \<Rightarrow> IpamScope option \<times> error option" where
  "findIpamScopeById describeIpamScopes =
     (case describeIpamScopes of
        (output, Some e) \<Rightarrow> (None, Some e)
      | (None, None) \<Rightarrow> (None, None)
      | (Some out, None) \<Rightarrow>
          (case IpamScopes out of
             [] \<Rightarrow> (None, None)
           | None # rest \<Rightarrow> (None, None)
           | Some scope # rest \<Rightarrow> (Some scope, None)))"

text \<open>
  Read of a scope. The second statement of the function, \<open>strings.Split(*scope.IpamArn,
  "/")[1]\<close>, runs before the error and the nil checks.
\<close>

definition resourceAwsVpcIpamScopeRead ::
    "DescribeIpamScopesOutput option \<times> error option \<Rightarrow> ResourceData
       \<Rightarrow> panic + (ResourceData \<times> error option)" where
  "resourceAwsVpcIpamScopeRead describeIpamScopes d =
     (case findIpamScopeById describeIpamScopes of (scope, e) \<Rightarrow>
        (case scope of
           None \<Rightarrow> Inl NilPointerDereference
         | Some s \<Rightarrow>
             (case IpamScope_IpamArn s of
                None \<Rightarrow> Inl NilPointerDereference
              | Some arn \<Rightarrow>
                  if length (Split arn CHR ''/'') \<le> 1 then Inl IndexOutOfRange
                  else
                    (let ipamId = Split arn CHR ''/'' ! 1
                     in if e \<noteq> None \<and> \<not> ErrCodeEquals e InvalidIpamScopeIdNotFound
                        then Inr (d, e)
                        else if \<not> IsNewResource d \<and> scope = None
                        then Inr (SetId [] d, None)
                        else
                          Inr ((Set_attr ''pool_count'' (of_int_ptr (PoolCount s))
                                \<circ> Set_attr ''is_default'' (of_bool_ptr (IsDefault s))
                                \<circ> Set_attr ''ipam_scope_type'' (of_string_ptr (IpamScopeType s))
                                \<circ> Set_attr ''ipam_id'' (IfString ipamId)
                                \<circ> Set_attr ''ipam_arn'' (of_string_ptr (IpamScope_IpamArn s))
                                \<circ> Set_attr ''description''
                                    (of_string_ptr (IpamScope_Description s))
                                \<circ> Set_attr ''arn'' (of_string_ptr (IpamScopeArn s))) d,
                               None)))))"

section \<open>RDS parameter group: Read and Delete\<close>

definition ErrCodeDBParameterGroupNotFoundFault :: string where
  "ErrCodeDBParameterGroupNotFoundFault = ''DBParameterGroupNotFound''"

definition ErrCodeInvalidDBParameterGroupStateFault :: string where
  "ErrCodeInvalidDBParameterGroupStateFault = ''InvalidDBParameterGroupState''"

record DBParameterGroup =
  DBParameterGroupName :: "string option"
  DBParameterGroupFamily :: "string option"
  DBParameterGroup_Description :: "string option"
  DBParameterGroupArn :: "string option"

record DescribeDBParameterGroupsOutput =
  DBParameterGroups :: "DBParameterGroup option list"

text \<open>
  Read, up to the check of the described group. \<open>describeResp\<close> is the answer of
  \<open>DescribeDBParameterGroups\<close>; \<open>readParametersAndTags\<close> is the outcome of the rest of the
  function (the parameters and the tags), which is reached only after the check.
  The result is the resource data and the diagnostics; no diagnostics is success.
\<close>

definition resourceParameterGroupRead ::
    "DescribeDBParameterGroupsOutput option \<times> error option
       \<Rightarrow> panic + (ResourceData \<times> error list)
       \<Rightarrow> ResourceData \<Rightarrow> panic + (ResourceData \<times> error list)" where
  "resourceParameterGroupRead describeResp readParametersAndTags d =
     (case describeResp of
        (output, Some e) \<Rightarrow>
          if ErrCodeEquals (Some e) ErrCodeDBParameterGroupNotFoundFault
          then Inr (SetId [] d, [])
          else Inr (d, [Errorf (''reading RDS DB Parameter Group ('' @ Id d @ '')'') e])
      | (None, None) \<Rightarrow> Inl NilPointerDereference
      | (Some out, None) \<Rightarrow>
          (case DBParameterGroups out of
             [g] \<Rightarrow>
               (case g of
                  None \<Rightarrow> Inl NilPointerDereference
                | Some grp \<Rightarrow>
                    if StringValue (DBParameterGroupName grp) \<noteq> Id d
                    then Inr (d, [ErrorString ''Unable to find Parameter Group''])
                    else readParametersAndTags)
           | _ \<Rightarrow> Inr (d, [ErrorString ''Unable to find Parameter Group''])))"

text \<open>
  \<open>resource.RetryContext\<close> of the plugin SDK calls the function again while it returns a
  retryable error and the time window lasts. \<open>window\<close> is the number of calls that end
  within the window, \<open>calls\<close> counts the calls made, \<open>resultErr\<close> is the error of the last
  call. When the window ends, the last error is returned if there is one, and a timeout
  error without \<open>LastError\<close> otherwise.
\<close>

datatype RetryError = RetryableError error | NonRetryableError error

fun RetryContext ::
    "nat \<Rightarrow> (nat \<Rightarrow> RetryError option) \<Rightarrow> nat \<Rightarrow> error option \<Rightarrow> error option \<times> nat" where
  "RetryContext 0 f calls resultErr =
     (case resultErr of
        None \<Rightarrow> (Some (TimeoutError None), calls)
      | Some e \<Rightarrow> (Some e, calls))"
| "RetryContext (Suc window) f calls resultErr =
     (case f calls of
        None \<Rightarrow> (None, Suc calls)
      | Some (NonRetryableError e) \<Rightarrow> (Some e, Suc calls)
      | Some (RetryableError e) \<Rightarrow> RetryContext window f (Suc calls) (Some e))"

text \<open>\<open>tfresource.TimedOut\<close>: a timeout error that carries no last error.\<close>

fun TimedOut :: "error option \<Rightarrow> bool" where
  "TimedOut (Some (TimeoutError None)) = True"
| "TimedOut _ = False"

text \<open>The function that Delete retries, applied to the error of one delete request.\<close>

definition deleteAttempt :: "error option \<Rightarrow> RetryError option" where
  "deleteAttempt e =
     (if ErrCodeEquals e ErrCodeDBParameterGroupNotFoundFault then None
      else if ErrCodeEquals e ErrCodeInvalidDBParameterGroupStateFault
      then (case e of Some e' \<Rightarrow> Some (RetryableError e') | None \<Rightarrow> None)
      else (case e of Some e' \<Rightarrow> Some (NonRetryableError e') | None \<Rightarrow> None))"

text \<open>
  Delete. \<open>deleteDBParameterGroup k\<close> is the error of the \<open>k\<close>-th delete request (from 0).
  The result is the diagnostics and the number of delete requests made.
\<close>

definition resourceParameterGroupDelete ::
    "nat \<Rightarrow> (nat \<Rightarrow> error option) \<Rightarrow> ResourceData \<Rightarrow> error list \<times> nat" where
  "resourceParameterGroupDelete window deleteDBParameterGroup d =
     (case RetryContext window (\<lambda>k. deleteAttempt (deleteDBParameterGroup k)) 0 None of
        (e, calls) \<Rightarrow>
          (case (if TimedOut e then (deleteDBParameterGroup calls, Suc calls) else (e, calls)) of
             (Some e', calls') \<Rightarrow>
               ([Errorf (''deleting RDS DB Parameter Group ('' @ Id d @ '')'') e'], calls')
           | (None, calls') \<Rightarrow> ([], calls')))"

section \<open>Vocabulary of the properties and example inputs\<close>

text \<open>What pass 2 and pass 3 iterate over: the elements the earlier passes skipped.\<close>

definition after_pass1 :: "ptr list \<Rightarrow> ptr list" where
  "after_pass1 xs = filter (\<lambda>p. \<not> charset_immediate p) xs"

definition after_pass2 :: "ptr list \<Rightarrow> ptr list" where
  "after_pass2 xs = filter pending_reboot (after_pass1 xs)"

text \<open>Three parameters of a MySQL parameter group.\<close>

definition character_set_client :: ptr where
  "character_set_client = Some \<lparr>ParameterName = Some ''character_set_client'',
     ParameterValue = Some ''utf8'', ApplyMethod = Some ''immediate''\<rparr>"

definition character_set_server :: ptr where
  "character_set_server = Some \<lparr>ParameterName = Some ''character_set_server'',
     ParameterValue = Some ''utf8'', ApplyMethod = Some ''pending-reboot''\<rparr>"

definition max_connections :: ptr where
  "max_connections = Some \<lparr>ParameterName = Some ''max_connections'',
     ParameterValue = Some ''100'', ApplyMethod = Some ''immediate''\<rparr>"

definition example_parameters :: "ptr slice" where
  "example_parameters = Some [character_set_client, character_set_server, max_connections]"

text \<open>
  The lookup of an IPAM reports not-found: the error carries the not-found code, or there is
  no error and no IPAM in the answer.
\<close>

definition ipam_not_found :: "DescribeIpamsOutput option \<times> error option \<Rightarrow> bool" where
  "ipam_not_found describeIpams =
     (case describeIpams of
        (output, Some e) \<Rightarrow> ErrCodeEquals (Some e) InvalidIpamIdNotFound
      | (None, None) \<Rightarrow> True
      | (Some out, None) \<Rightarrow>
          (case Ipams out of [] \<Rightarrow> True | None # rest \<Rightarrow> True | Some ipam # rest \<Rightarrow> False))"

text \<open>
  A configuration as the schema of \<open>aws_vpc_ipam\<close> delivers it: \<open>operating_regions\<close> is a
  set of maps with the one string field \<open>region_name\<close>, \<open>description\<close> is a string when set.
\<close>

definition operating_region :: "string \<Rightarrow> iface" where
  "operating_region name = IfMap [(''region_name'', IfString name)]"

definition schema_conformant :: "ResourceData \<Rightarrow> string list \<Rightarrow> bool" where
  "schema_conformant d names =
     (Get d ''operating_regions'' = IfList (map operating_region names)
      \<and> (case Get d ''description'' of IfNil \<Rightarrow> True | IfString s \<Rightarrow> True | _ \<Rightarrow> False))"

definition configured_description :: "ResourceData \<Rightarrow> string option" where
  "configured_description d =
     (case Get d ''description'' of IfString s \<Rightarrow> if s = [] then None else Some s | _ \<Rightarrow> None)"

definition example_ipam_config :: ResourceData where
  "example_ipam_config =
     \<lparr>Id = [], IsNewResource = True,
      attributes = [(''description'', IfString ''main''),
                    (''operating_regions'',
                     IfList [operating_region ''us-east-1'', operating_region ''us-west-2''])]\<rparr>"

text \<open>Answers of \<open>DeleteDBParameterGroup\<close> to successive delete requests.\<close>

definition conflict_then_not_found :: "nat \<Rightarrow> error option" where
  "conflict_then_not_found n =
     (if n = 0 then Some (AwsError ''InvalidDBParameterGroupState'' ''in use'')
      else Some (AwsError ''DBParameterGroupNotFound'' ''not found''))"

definition always_conflict :: "nat \<Rightarrow> error option" where
  "always_conflict n = Some (AwsError ''InvalidDBParameterGroupState'' ''in use'')"

definition access_denied :: "nat \<Rightarrow> error option" where
  "access_denied n = Some (AwsError ''AccessDenied'' ''not authorized'')"

section \<open>Checks of the model on examples\<close>

text \<open>\<open>Contains\<close> is the substring relation.\<close>

lemma HasPrefix_iff: "HasPrefix s p \<longleftrightarrow> (\<exists>ss. s = p @ ss)"
  by (induction s p rule: HasPrefix.induct) auto

lemma Contains_iff: "Contains s substr \<longleftrightarrow> (\<exists>ps ss. s = ps @ substr @ ss)"
proof (induction s)
  case Nil
  then show ?case by auto
next
  case (Cons x xs)
  show ?case
  proof
    assume "Contains (x # xs) substr"
    then consider "HasPrefix (x # xs) substr" | "Contains xs substr" by auto
    then show "\<exists>ps ss. x # xs = ps @ substr @ ss"
    proof cases
      case 1
      then obtain ss where "x # xs = substr @ ss" by (auto simp: HasPrefix_iff)
      then have "x # xs = [] @ substr @ ss" by simp
      then show ?thesis by blast
    next
      case 2
      with Cons.IH obtain ps ss where "xs = ps @ substr @ ss" by blast
      then have "x # xs = (x # ps) @ substr @ ss" by simp
      then show ?thesis by blast
    qed
  next
    assume "\<exists>ps ss. x # xs = ps @ substr @ ss"
    then obtain ps ss where e: "x # xs = ps @ substr @ ss" by blast
    show "Contains (x # xs) substr"
    proof (cases ps)
      case Nil
      with e have "HasPrefix (x # xs) substr" by (auto simp: HasPrefix_iff)
      then show ?thesis by simp
    next
      case (Cons y ys)
      with e have "xs = ys @ substr @ ss" by simp
      with Cons.IH have "Contains xs substr" by blast
      then show ?thesis by simp
    qed
  qed
qed

lemmas example_defs = character_set_client_def character_set_server_def max_connections_def

text \<open>
  Two immediate parameters and one for the next reboot, chunk size 2: the batch is the two
  immediate ones, the \<open>character_set\<close> one first.
\<close>

lemma example_chunk:
  "ResourceParameterModifyChunk example_parameters 2
     = Inr (Some [character_set_client, max_connections], Some [character_set_server])"
  by (simp add: ResourceParameterModifyChunk_def len_def go_append_def example_parameters_def
      example_defs)

text \<open>
  With a chunk size of 0 the remainder is the whole input again; a nil pointer that a pass
  reaches is dereferenced.
\<close>

lemma chunk_size_zero:
  "xs \<noteq> [] \<Longrightarrow> ResourceParameterModifyChunk (Some xs) 0 = Inr (None, Some xs)"
  by (cases xs) (simp_all add: ResourceParameterModifyChunk_def len_def go_append_def)

lemma nil_element_panics:
  "ResourceParameterModifyChunk (Some [None, character_set_client]) 1 = Inl NilPointerDereference"
  by (simp add: ResourceParameterModifyChunk_def len_def)

text \<open>The Read of a scope that the lookup finds.\<close>

lemma Split_example:
  "Split ''arn:aws:ec2::123456789012:ipam/ipam-0a1b'' CHR ''/''
     = [''arn:aws:ec2::123456789012:ipam'', ''ipam-0a1b'']"
  by simp

lemma scope_read_found:
  "resourceAwsVpcIpamScopeRead
     (Some \<lparr>IpamScopes = [Some \<lparr>IpamScopeId = Some ''ipam-scope-1'', IpamScopeArn = Some ''arn-scope'',
         IpamScope_Description = None, IpamScope_IpamArn = Some ''ipam/ipam-0a1b'',
         IpamScopeType = Some ''private'', IsDefault = Some False, PoolCount = Some 0\<rparr>]\<rparr>, None)
     \<lparr>Id = ''ipam-scope-1'', IsNewResource = False, attributes = []\<rparr>
   = Inr (\<lparr>Id = ''ipam-scope-1'', IsNewResource = False,
           attributes = [(''arn'', IfString ''arn-scope''), (''description'', IfNil),
             (''ipam_arn'', IfString ''ipam/ipam-0a1b''), (''ipam_id'', IfString ''ipam-0a1b''),
             (''ipam_scope_type'', IfString ''private''), (''is_default'', IfBool False),
             (''pool_count'', IfInt 0)]\<rparr>, None)"
  by (simp add: resourceAwsVpcIpamScopeRead_def findIpamScopeById_def Set_attr_def
      InvalidIpamScopeIdNotFound_def)

section \<open>The passes as instances of one scan\<close>

lemma pass1_scan: "pass1 K xs c r = scan sel1 K xs c r"
  by (induction xs arbitrary: c r) (auto simp: sel1_def split: option.splits)

lemma pass2_scan: "pass2 K xs c r = scan sel2 K xs c r"
  by (induction xs arbitrary: c r) (auto simp: sel2_def split: option.splits)

lemma pass3_scan: "pass3 K xs c r = scan (\<lambda>_. Some True) K xs c r"
  by (induction xs arbitrary: c r) auto

lemma elems_go_append [simp]: "elems (go_append s xs) = elems s @ xs"
  by (simp add: go_append_def)

lemma len_go_append [simp]: "len (go_append s xs) = len s + length xs"
  by (simp add: len_def)

lemma scan_Returned:
  assumes "scan sel K xs c r = Returned c' r'"
  shows "\<exists>i<length xs. (\<forall>p \<in> set (take i xs). sel p \<noteq> None)
           \<and> elems c' = elems c @ filter (\<lambda>p. sel p = Some True) (take i xs)
           \<and> elems r' = elems r @ filter (\<lambda>p. sel p \<noteq> Some True) (take i xs) @ drop i xs
           \<and> K \<le> int (len c') \<and> (int (len c) \<le> K \<longrightarrow> int (len c') = K)"
  using assms
proof (induction xs arbitrary: c r)
  case Nil
  then show ?case by simp
next
  case (Cons p rest)
  show ?case
  proof (cases "int (len c) \<ge> K")
    case True
    with Cons.prems have "c' = c" "r' = go_append r (p # rest)" by auto
    with True show ?thesis by (intro exI[of _ 0]) (auto simp: len_def)
  next
    case False
    then obtain b where b: "sel p = Some b" using Cons.prems by (auto split: option.splits)
    show ?thesis
    proof (cases b)
      case True
      with b False Cons.prems have "scan sel K rest (go_append c [p]) r = Returned c' r'" by simp
      from Cons.IH[OF this] obtain i where i: "i < length rest"
        "\<forall>p \<in> set (take i rest). sel p \<noteq> None"
        "elems c' = elems (go_append c [p]) @ filter (\<lambda>p. sel p = Some True) (take i rest)"
        "elems r' = elems r @ filter (\<lambda>p. sel p \<noteq> Some True) (take i rest) @ drop i rest"
        "K \<le> int (len c')" "int (len (go_append c [p])) \<le> K \<longrightarrow> int (len c') = K"
        by blast
      with b True False show ?thesis by (intro exI[of _ "Suc i"]) auto
    next
      case F: False
      with b False Cons.prems have "scan sel K rest c (go_append r [p]) = Returned c' r'" by simp
      from Cons.IH[OF this] obtain i where i: "i < length rest"
        "\<forall>p \<in> set (take i rest). sel p \<noteq> None"
        "elems c' = elems c @ filter (\<lambda>p. sel p = Some True) (take i rest)"
        "elems r' = elems (go_append r [p]) @ filter (\<lambda>p. sel p \<noteq> Some True) (take i rest) @ drop i rest"
        "K \<le> int (len c')" "int (len c) \<le> K \<longrightarrow> int (len c') = K"
        by blast
      with b F False show ?thesis by (intro exI[of _ "Suc i"]) auto
    qed
  qed
qed

lemma scan_Completed:
  assumes "scan sel K xs c r = Completed c' r'"
  shows "(\<forall>p \<in> set xs. sel p \<noteq> None)
           \<and> elems c' = elems c @ filter (\<lambda>p. sel p = Some True) xs
           \<and> elems r' = elems r @ filter (\<lambda>p. sel p \<noteq> Some True) xs
           \<and> (xs \<noteq> [] \<longrightarrow> int (len c') \<le> K) \<and> (xs = [] \<longrightarrow> c' = c \<and> r' = r)"
  using assms
proof (induction xs arbitrary: c r)
  case Nil
  then show ?case by simp
next
  case (Cons p rest)
  from Cons.prems have nf: "\<not> int (len c) \<ge> K" by (auto split: if_splits)
  then obtain b where b: "sel p = Some b" using Cons.prems by (auto split: option.splits)
  show ?case
  proof (cases b)
    case True
    with b nf Cons.prems have "scan sel K rest (go_append c [p]) r = Completed c' r'" by simp
    from Cons.IH[OF this] b True nf show ?thesis by (cases "rest = []") auto
  next
    case False
    with b nf Cons.prems have "scan sel K rest c (go_append r [p]) = Completed c' r'" by simp
    from Cons.IH[OF this] b False nf show ?thesis by (cases "rest = []") auto
  qed
qed

lemma scan_no_panic:
  "\<forall>p \<in> set xs. sel p \<noteq> None \<Longrightarrow> scan sel K xs c r \<noteq> Panicked"
  by (induction xs arbitrary: c r) (auto split: option.splits bool.splits)

section \<open>The result of the chunking on an input above the chunk size\<close>

lemma sel1_wf: "p \<noteq> None \<Longrightarrow> sel1 p = Some (charset_immediate p)"
  by (cases p) (auto simp: sel1_def charset_immediate_def)

lemma sel2_wf: "p \<noteq> None \<Longrightarrow> sel2 p = Some (\<not> pending_reboot p)"
  by (cases p) (auto simp: sel2_def pending_reboot_def)

lemma filter_sel1:
  assumes "\<forall>p \<in> set xs. p \<noteq> None"
  shows "filter (\<lambda>p. sel1 p = Some True) xs = filter charset_immediate xs"
    and "filter (\<lambda>p. sel1 p \<noteq> Some True) xs = filter (\<lambda>p. \<not> charset_immediate p) xs"
  using assms by (auto intro!: filter_cong simp: sel1_wf)

lemma filter_sel2:
  assumes "\<forall>p \<in> set xs. p \<noteq> None"
  shows "filter (\<lambda>p. sel2 p = Some True) xs = filter (\<lambda>p. \<not> pending_reboot p) xs"
    and "filter (\<lambda>p. sel2 p \<noteq> Some True) xs = filter pending_reboot xs"
  using assms by (auto intro!: filter_cong simp: sel2_wf)

lemma chunk_large:
  assumes wf: "well_formed all" and big: "K < int (len all)" and K0: "0 \<le> K"
  defines "xs \<equiv> elems all"
  defines "cur2 \<equiv> filter (\<lambda>p. \<not> charset_immediate p) xs"
  defines "cur3 \<equiv> filter pending_reboot cur2"
  shows "\<exists>b r i. ResourceParameterModifyChunk all K = Inr (b, r) \<and> int (len b) = K \<and>
     ((i < length xs \<and> (elems b, elems r) = cut_at charset_immediate [] xs i)
    \<or> (i < length cur2 \<and> (elems b, elems r) =
          cut_at (\<lambda>p. \<not> pending_reboot p) (filter charset_immediate xs) cur2 i)
    \<or> (i < length cur3 \<and> (elems b, elems r) =
          cut_at (\<lambda>p. True)
            (filter charset_immediate xs @ filter (\<lambda>p. \<not> pending_reboot p) cur2) cur3 i))"
proof -
  have nb: "\<not> int (len all) \<le> K" using big by simp
  have xs_ne: "xs \<noteq> []" using big K0 by (auto simp: len_def xs_def)
  have wfx: "\<forall>p \<in> set xs. p \<noteq> None" using wf by (simp add: well_formed_def xs_def)
  then have wf1: "\<forall>p \<in> set xs. sel1 p \<noteq> None" by (simp add: sel1_wf)
  have len0: "int (len (None :: ptr slice)) \<le> K" using K0 by (simp add: len_def)
  consider (R1) c r where "scan sel1 K xs None None = Returned c r"
    | (C1) c r where "scan sel1 K xs None None = Completed c r"
    using scan_no_panic[OF wf1, of K None None] by (cases "scan sel1 K xs None None") auto
  then show ?thesis
  proof cases
    case R1
    from scan_Returned[OF R1] len0 obtain i where i: "i < length xs"
      "elems c = filter (\<lambda>p. sel1 p = Some True) (take i xs)"
      "elems r = filter (\<lambda>p. sel1 p \<noteq> Some True) (take i xs) @ drop i xs"
      "int (len c) = K" by auto
    have wft: "\<forall>p \<in> set (take i xs). p \<noteq> None" using wfx by (meson in_set_takeD)
    have res: "ResourceParameterModifyChunk all K = Inr (c, r)"
      using nb R1 by (simp add: ResourceParameterModifyChunk_def pass1_scan xs_def)
    have "(elems c, elems r) = cut_at charset_immediate [] xs i"
      using i filter_sel1[OF wft] by (simp add: cut_at_def)
    with res i show ?thesis by blast
  next
    case C1
    from scan_Completed[OF C1] xs_ne have c1: "elems c = filter (\<lambda>p. sel1 p = Some True) xs"
      "elems r = filter (\<lambda>p. sel1 p \<noteq> Some True) xs" "int (len c) \<le> K" by auto
    then have ec: "elems c = filter charset_immediate xs" and er: "elems r = cur2"
      using filter_sel1[OF wfx] by (simp_all add: cur2_def)
    have wf2x: "\<forall>p \<in> set cur2. p \<noteq> None" using wfx by (simp add: cur2_def)
    then have wf2: "\<forall>p \<in> set cur2. sel2 p \<noteq> None" by (simp add: sel2_wf)
    consider (R2) c2 r2 where "scan sel2 K cur2 c None = Returned c2 r2"
      | (C2) c2 r2 where "scan sel2 K cur2 c None = Completed c2 r2"
      using scan_no_panic[OF wf2, of K c None] by (cases "scan sel2 K cur2 c None") auto
    then show ?thesis
    proof cases
      case R2
      from scan_Returned[OF R2] c1(3) obtain i where i: "i < length cur2"
        "elems c2 = elems c @ filter (\<lambda>p. sel2 p = Some True) (take i cur2)"
        "elems r2 = filter (\<lambda>p. sel2 p \<noteq> Some True) (take i cur2) @ drop i cur2"
        "int (len c2) = K" by auto
      have wft: "\<forall>p \<in> set (take i cur2). p \<noteq> None" using wf2x by (meson in_set_takeD)
      have res: "ResourceParameterModifyChunk all K = Inr (c2, r2)"
        using nb C1 R2 er
        by (simp add: ResourceParameterModifyChunk_def pass1_scan pass2_scan xs_def)
      have "(elems c2, elems r2) =
          cut_at (\<lambda>p. \<not> pending_reboot p) (filter charset_immediate xs) cur2 i"
        using i filter_sel2[OF wft] ec by (simp add: cut_at_def)
      with res i show ?thesis by blast
    next
      case C2
      from scan_Completed[OF C2] c1(3) have c2: "elems c2 = elems c @ filter (\<lambda>p. sel2 p = Some True) cur2"
        "elems r2 = filter (\<lambda>p. sel2 p \<noteq> Some True) cur2" "int (len c2) \<le> K"
        by (cases "cur2 = []", auto)+
      then have ec2: "elems c2 = filter charset_immediate xs @ filter (\<lambda>p. \<not> pending_reboot p) cur2"
        and er2: "elems r2 = cur3"
        using filter_sel2[OF wf2x] ec by (simp_all add: cur3_def)
      have tot: "length (elems c2) + length cur3 = length xs"
        unfolding ec2 cur3_def cur2_def
        using sum_length_filter_compl[of charset_immediate xs]
          sum_length_filter_compl[of "\<lambda>p. \<not> pending_reboot p" "filter (\<lambda>p. \<not> charset_immediate p) xs"]
        by simp
      consider (R3) c3 r3 where "scan (\<lambda>_. Some True) K cur3 c2 None = Returned c3 r3"
        | (C3) c3 r3 where "scan (\<lambda>_. Some True) K cur3 c2 None = Completed c3 r3"
        using scan_no_panic[of cur3 "\<lambda>_. Some True" K c2 None]
        by (cases "scan (\<lambda>_. Some True) K cur3 c2 None") auto
      then show ?thesis
      proof cases
        case R3
        from scan_Returned[OF R3] c2(3) obtain i where i: "i < length cur3"
          "elems c3 = elems c2 @ take i cur3"
          "elems r3 = drop i cur3"
          "int (len c3) = K" by auto
        have res: "ResourceParameterModifyChunk all K = Inr (c3, r3)"
          using nb C1 C2 R3 er er2
          by (simp add: ResourceParameterModifyChunk_def pass1_scan pass2_scan pass3_scan xs_def)
        have "(elems c3, elems r3) = cut_at (\<lambda>p. True)
            (filter charset_immediate xs @ filter (\<lambda>p. \<not> pending_reboot p) cur2) cur3 i"
          using i ec2 by (simp add: cut_at_def)
        with res i show ?thesis by blast
      next
        case C3
        from scan_Completed[OF C3] c2(3) have "elems c3 = elems c2 @ cur3" "int (len c3) \<le> K"
          by (cases "cur3 = []", auto)+
        with tot big have False by (simp add: len_def xs_def)
        then show ?thesis ..
      qed
    qed
  qed
qed

lemma cut_at_mset:
  assumes "(b, r) = cut_at sel prev cur i"
  shows "mset b + mset r = mset prev + mset cur"
proof -
  have "mset (filter sel (take i cur)) + mset (filter (\<lambda>p. \<not> sel p) (take i cur))
        = mset (take i cur)" by simp
  moreover have "mset (take i cur) + mset (drop i cur) = mset cur"
    by (metis append_take_drop_id mset_append)
  ultimately show ?thesis using assms by (simp add: cut_at_def ac_simps)
qed

lemma cut_at_subseq:
  assumes "(b, r) = cut_at sel prev cur i"
  shows "subseq r cur"
proof -
  have "subseq (filter (\<lambda>p. \<not> sel p) (take i cur) @ drop i cur) (take i cur @ drop i cur)"
    by (intro list_emb_append_mono subseq_filter_left subseq_order.order_refl)
  then show ?thesis using assms by (simp add: cut_at_def)
qed

lemma pending_not_charset: "pending_reboot p \<Longrightarrow> \<not> charset_immediate p"
  by (cases p) (auto simp: pending_reboot_def charset_immediate_def)

lemma prioritized_alt:
  "prioritized xs = filter charset_immediate xs
     @ filter (\<lambda>p. \<not> pending_reboot p) (filter (\<lambda>p. \<not> charset_immediate p) xs)
     @ filter pending_reboot (filter (\<lambda>p. \<not> charset_immediate p) xs)"
  unfolding prioritized_def
  by (auto simp: priority_def intro!: filter_cong arg_cong2[where f="(@)"] dest: pending_not_charset)

lemma take_prefix_exact: "length b = n \<Longrightarrow> take n (b @ rest) = b"
  by simp

lemma cut_at_take:
  assumes "(b, r) = cut_at sel prev cur i" and "length b = n"
  shows "take n (prev @ filter sel cur @ ys) = b"
proof -
  have "filter sel cur = filter sel (take i cur) @ filter sel (drop i cur)"
    by (metis append_take_drop_id filter_append)
  then have "prev @ filter sel cur @ ys = b @ (filter sel (drop i cur) @ ys)"
    using assms(1) by (simp add: cut_at_def)
  then show ?thesis using assms(2) by (simp only: take_prefix_exact)
qed

lemma chunk_large_props:
  assumes wf: "well_formed all" and big: "K < int (len all)" and K0: "0 \<le> K"
  shows "\<exists>b r. ResourceParameterModifyChunk all K = Inr (b, r) \<and> int (len b) = K
     \<and> mset (elems b) + mset (elems r) = mset (elems all)
     \<and> subseq (elems r) (elems all)
     \<and> elems b = take (nat K) (prioritized (elems all))"
proof -
  define xs where "xs = elems all"
  define cur2 where "cur2 = filter (\<lambda>p. \<not> charset_immediate p) xs"
  define cur3 where "cur3 = filter pending_reboot cur2"
  define prev2 where "prev2 = filter charset_immediate xs"
  define prev3 where "prev3 = prev2 @ filter (\<lambda>p. \<not> pending_reboot p) cur2"
  from chunk_large[OF wf big K0] obtain b r i where
    res: "ResourceParameterModifyChunk all K = Inr (b, r)" and lb: "int (len b) = K" and
    st: "(i < length xs \<and> (elems b, elems r) = cut_at charset_immediate [] xs i)
       \<or> (i < length cur2 \<and> (elems b, elems r) = cut_at (\<lambda>p. \<not> pending_reboot p) prev2 cur2 i)
       \<or> (i < length cur3 \<and> (elems b, elems r) = cut_at (\<lambda>p. True) prev3 cur3 i)"
    unfolding xs_def cur2_def cur3_def prev2_def prev3_def by blast
  have lb': "length (elems b) = nat K" using lb by (simp add: len_def)
  have pr: "prioritized xs = prev2 @ filter (\<lambda>p. \<not> pending_reboot p) cur2 @ cur3"
    by (simp add: prioritized_alt prev2_def cur2_def cur3_def)
  have m2: "mset prev2 + mset cur2 = mset xs" by (simp add: prev2_def cur2_def)
  have m3: "mset prev3 + mset cur3 = mset xs"
    using m2 by (simp add: prev3_def cur3_def ac_simps)
  have s2: "subseq cur2 xs" by (simp add: cur2_def)
  have s3: "subseq cur3 xs" unfolding cur3_def by (rule subseq_order.order_trans[OF subseq_filter_left s2])
  from st consider (P1) "(elems b, elems r) = cut_at charset_immediate [] xs i"
    | (P2) "(elems b, elems r) = cut_at (\<lambda>p. \<not> pending_reboot p) prev2 cur2 i"
    | (P3) "(elems b, elems r) = cut_at (\<lambda>p. True) prev3 cur3 i" by blast
  then have "mset (elems b) + mset (elems r) = mset xs \<and> subseq (elems r) xs
     \<and> elems b = take (nat K) (prioritized xs)"
  proof cases
    case P1
    have "take (nat K) ([] @ filter charset_immediate xs
        @ (filter (\<lambda>p. \<not> pending_reboot p) cur2 @ cur3)) = elems b"
      by (rule cut_at_take[OF P1 lb'])
    then have "elems b = take (nat K) (prioritized xs)" by (simp add: pr prev2_def)
    with cut_at_mset[OF P1] cut_at_subseq[OF P1] show ?thesis by simp
  next
    case P2
    have "take (nat K) (prev2 @ filter (\<lambda>p. \<not> pending_reboot p) cur2 @ cur3) = elems b"
      by (rule cut_at_take[OF P2 lb'])
    then have "elems b = take (nat K) (prioritized xs)" by (simp add: pr)
    with cut_at_mset[OF P2] cut_at_subseq[OF P2] m2 s2 show ?thesis
      by (auto intro: subseq_order.order_trans)
  next
    case P3
    have "take (nat K) (prev3 @ filter (\<lambda>p. True) cur3 @ []) = elems b"
      by (rule cut_at_take[OF P3 lb'])
    then have "elems b = take (nat K) (prioritized xs)" by (simp add: pr prev3_def)
    with cut_at_mset[OF P3] cut_at_subseq[OF P3] m3 s3 show ?thesis
      by (auto intro: subseq_order.order_trans)
  qed
  with res lb show ?thesis unfolding xs_def by blast
qed

lemma chunk_small:
  "int (len all) \<le> K \<Longrightarrow> ResourceParameterModifyChunk all K = Inr (all, None)"
  by (simp add: ResourceParameterModifyChunk_def)

lemma chunk_large_remainder:
  assumes "ResourceParameterModifyChunk all K = Inr (b, r)" and "int (len b) = K"
    and "mset (elems b) + mset (elems r) = mset (elems all)" and "K < int (len all)"
    and "well_formed all"
  shows "int (len r) = int (len all) - K" and "r \<noteq> None" and "well_formed r"
proof -
  have "size (mset (elems b) + mset (elems r)) = size (mset (elems all))"
    using assms(3) by simp
  then have "len b + len r = len all" by (simp add: len_def)
  then show l: "int (len r) = int (len all) - K" using assms(2) by linarith
  then show "r \<noteq> None" using assms(4) by (cases r) (auto simp: len_def)
  have "set (elems r) \<subseteq> set (elems all)"
    using assms(3) by (metis mset_subset_eq_add_right set_mset_mono set_mset_mset)
  then show "well_formed r" using assms(5) by (auto simp: well_formed_def)
qed

section \<open>The update loop\<close>

lemma batch_count_small:
  "1 \<le> K \<Longrightarrow> int (len (Some xs)) \<le> K \<Longrightarrow> batch_count K (Some xs) = 1"
  by (simp add: batch_count_def len_def) 

lemma batch_count_large:
  assumes "1 \<le> K" "K < int (len all)" "int (len r) = int (len all) - K" "r \<noteq> None" "all \<noteq> None"
  shows "batch_count K all = Suc (batch_count K r)"
proof -
  define k where "k = nat K"
  have k: "0 < k" "k < len all" "len r = len all - k" using assms by (auto simp: k_def)
  then have "len all - 1 \<ge> k" by simp
  then have "(len all - 1) div k = Suc ((len all - 1 - k) div k)"
    using k(1) by (simp add: le_div_geq)
  moreover have "len all - 1 - k = len r - 1" using k by simp
  ultimately show ?thesis using assms(4,5) by (simp add: batch_count_def k_def)
qed

lemma modifyLoop_run:
  assumes K1: "1 \<le> K"
  shows "well_formed parameters \<Longrightarrow>
    \<exists>out batches. modifyLoop conn K parameters sent = Some (Inr out, sent @ batches)
      \<and> mset (concat (map elems batches)) \<subseteq># mset (elems parameters)
      \<and> (out = None \<longrightarrow> mset (concat (map elems batches)) = mset (elems parameters))
      \<and> (\<forall>b \<in> set batches. int (len b) \<le> K)
      \<and> length batches \<le> batch_count K parameters
      \<and> ((\<forall>s q. conn s q = None) \<longrightarrow> out = None \<and> length batches = batch_count K parameters)"
proof (induction "len parameters" arbitrary: parameters sent rule: less_induct)
  case less
  show ?case
  proof (cases parameters)
    case None
    then have "modifyLoop conn K parameters sent = Some (Inr None, sent @ [])"
      by (subst modifyLoop.simps) simp
    with None show ?thesis by (intro exI[of _ None] exI[of _ "[]"]) (simp add: batch_count_def)
  next
    case (Some xs)
    show ?thesis
    proof (cases "int (len parameters) \<le> K")
      case True
      note ch = chunk_small[OF True]
      have bc: "batch_count K parameters = 1" using batch_count_small[OF K1] True Some by simp
      show ?thesis
      proof (cases "conn sent parameters")
        case None
        have "modifyLoop conn K parameters sent = modifyLoop conn K None (sent @ [parameters])"
          using Some ch None by (subst modifyLoop.simps) simp
        also have "\<dots> = Some (Inr None, sent @ [parameters])"
          by (subst modifyLoop.simps) simp
        finally show ?thesis using True bc
          by (intro exI[of _ None] exI[of _ "[parameters]"]) simp
      next
        case (Some err)
        have "modifyLoop conn K parameters sent =
          Some (Inr (Some (Errorf ''modifying DB Parameter Group'' err)), sent @ [parameters])"
          using \<open>parameters = Some xs\<close> ch Some by (subst modifyLoop.simps) simp
        then show ?thesis using True bc Some
          by (intro exI[of _ "Some (Errorf ''modifying DB Parameter Group'' err)"]
                exI[of _ "[parameters]"]) auto
      qed
    next
      case False
      then have big: "K < int (len parameters)" by simp
      from chunk_large_props[OF less.prems big] K1 obtain b r where
        ch: "ResourceParameterModifyChunk parameters K = Inr (b, r)" and lb: "int (len b) = K"
        and ms: "mset (elems b) + mset (elems r) = mset (elems parameters)" by auto
      note rem = chunk_large_remainder[OF ch lb ms big less.prems]
      have bc: "batch_count K parameters = Suc (batch_count K r)"
        using batch_count_large[OF K1 big rem(1,2)] Some by simp
      show ?thesis
      proof (cases "conn sent b")
        case None
        have lt: "len r < len parameters" using rem(1) K1 by linarith
        from less.hyps[OF lt rem(3), of "sent @ [b]"] obtain out batches where
          ih: "modifyLoop conn K r (sent @ [b]) = Some (Inr out, (sent @ [b]) @ batches)"
          "mset (concat (map elems batches)) \<subseteq># mset (elems r)"
          "out = None \<longrightarrow> mset (concat (map elems batches)) = mset (elems r)"
          "\<forall>b \<in> set batches. int (len b) \<le> K"
          "length batches \<le> batch_count K r"
          "(\<forall>s q. conn s q = None) \<longrightarrow> out = None \<and> length batches = batch_count K r"
          by blast
        have "modifyLoop conn K parameters sent = modifyLoop conn K r (sent @ [b])"
          using Some ch None by (subst modifyLoop.simps) simp
        with ih(1) have run: "modifyLoop conn K parameters sent = Some (Inr out, sent @ (b # batches))"
          by simp
        have sub: "mset (concat (map elems (b # batches))) \<subseteq># mset (elems parameters)"
          using ih(2) ms by (metis concat.simps(2) list.simps(9) mset_append mset_subset_eq_mono_add_left_cancel)
        have eq: "out = None \<longrightarrow> mset (concat (map elems (b # batches))) = mset (elems parameters)"
          using ih(3) ms by auto
        from run sub eq ih(4,5,6) lb bc show ?thesis
          by (intro exI[of _ out] exI[of _ "b # batches"]) auto
      next
        case (Some err)
        have run: "modifyLoop conn K parameters sent =
          Some (Inr (Some (Errorf ''modifying DB Parameter Group'' err)), sent @ [b])"
          using \<open>parameters = Some xs\<close> ch Some by (subst modifyLoop.simps) simp
        have sub: "mset (elems b) \<subseteq># mset (elems parameters)"
          using ms by (metis mset_subset_eq_add_left)
        from run sub lb bc Some show ?thesis
          by (intro exI[of _ "Some (Errorf ''modifying DB Parameter Group'' err)"]
                exI[of _ "[b]"]) auto
      qed
    qed
  qed
qed

section \<open>Lists, multisets and the priority order\<close>

lemma distinct_concat_disjoint:
  "distinct (concat xss) \<Longrightarrow> i < j \<Longrightarrow> j < length xss \<Longrightarrow> set (xss ! i) \<inter> set (xss ! j) = {}"
proof (induction xss arbitrary: i j)
  case Nil
  then show ?case by simp
next
  case (Cons xs xss)
  show ?case
  proof (cases i)
    case 0
    with Cons.prems obtain j' where j': "j = Suc j'" "j' < length xss" by (cases j) auto
    then have "set (xss ! j') \<subseteq> set (concat xss)" by (auto intro: nth_mem)
    with Cons.prems(1) 0 j' show ?thesis by auto
  next
    case (Suc i')
    with Cons.prems obtain j' where j': "j = Suc j'" "i' < j'" "j' < length xss" by (cases j) auto
    with Cons.IH[of i' j'] Cons.prems(1) Suc show ?thesis by simp
  qed
qed

lemma distinct_of_submset:
  "mset xs \<subseteq># mset ys \<Longrightarrow> distinct ys \<Longrightarrow> distinct xs"
proof -
  assume sub: "mset xs \<subseteq># mset ys" and d: "distinct ys"
  from sub obtain zs where "mset ys = mset xs + zs" by (metis subset_mset.le_iff_add)
  then obtain zl where "mset ys = mset (xs @ zl)" by (metis ex_mset mset_append)
  then have "distinct (xs @ zl)" using d by (metis mset_eq_imp_distinct_iff)
  then show "distinct xs" by simp
qed

lemma sorted_all_equal: "\<forall>x \<in> set l. x = (c::nat) \<Longrightarrow> sorted l"
  by (induction l) auto

lemma sorted_prioritized: "sorted (map priority (prioritized xs))"
proof -
  have s0: "sorted (map priority (filter (\<lambda>p. priority p = 0) xs))"
    by (rule sorted_all_equal[of _ 0]) auto
  have s1: "sorted (map priority (filter (\<lambda>p. priority p = 1) xs))"
    by (rule sorted_all_equal[of _ 1]) auto
  have s2: "sorted (map priority (filter (\<lambda>p. priority p = 2) xs))"
    by (rule sorted_all_equal[of _ 2]) auto
  show ?thesis
    unfolding prioritized_def using s0 s1 s2 by (auto simp: sorted_append)
qed

lemma example_wf: "well_formed example_parameters"
  by (simp add: well_formed_def example_parameters_def example_defs)

lemma example_len: "len example_parameters = 3"
  by (simp add: len_def example_parameters_def)

section \<open>The claims about the chunking\<close>

text \<open>
  C1. For every chunk size \<open>K \<ge> 1\<close> and every slice of parameters, one call returns a batch
  and a remainder that together hold every entry of the input exactly once (a partition of
  the input as a multiset). Calling again on each remainder until it is nil, as the update
  loop does, ends; the batches sent never hold more than the input does, and when no request
  fails they hold every entry of the input exactly once. An input without repeated entries
  gives pairwise disjoint batches.
\<close>

theorem chunk_partition:
  assumes "1 \<le> K" and "well_formed all"
  shows "(\<exists>batch remainder. ResourceParameterModifyChunk all K = Inr (batch, remainder)
            \<and> mset (elems batch) + mset (elems remainder) = mset (elems all)
            \<and> (distinct (elems all) \<longrightarrow> set (elems batch) \<inter> set (elems remainder) = {}))
    \<and> (\<forall>conn. \<exists>out batches. modifyLoop conn K all [] = Some (Inr out, batches)
            \<and> mset (concat (map elems batches)) \<subseteq># mset (elems all)
            \<and> (out = None \<longrightarrow> mset (concat (map elems batches)) = mset (elems all))
            \<and> ((\<forall>sent request. conn sent request = None) \<longrightarrow> out = None)
            \<and> (distinct (elems all) \<longrightarrow>
                 (\<forall>i j. i < j \<and> j < length batches \<longrightarrow>
                    set (elems (batches ! i)) \<inter> set (elems (batches ! j)) = {})))"
proof
  have "\<exists>batch remainder. ResourceParameterModifyChunk all K = Inr (batch, remainder)
            \<and> mset (elems batch) + mset (elems remainder) = mset (elems all)"
  proof (cases "int (len all) \<le> K")
    case True
    then show ?thesis using chunk_small[OF True] by simp
  next
    case False
    then have big: "K < int (len all)" by simp
    from chunk_large_props[OF assms(2) big] assms(1) show ?thesis by fastforce
  qed
  then obtain batch remainder where
    r: "ResourceParameterModifyChunk all K = Inr (batch, remainder)"
    and m: "mset (elems batch) + mset (elems remainder) = mset (elems all)" by blast
  have "distinct (elems all) \<longrightarrow> set (elems batch) \<inter> set (elems remainder) = {}"
  proof
    assume "distinct (elems all)"
    moreover have "mset (elems batch @ elems remainder) = mset (elems all)" using m by simp
    ultimately have "distinct (elems batch @ elems remainder)"
      by (metis mset_eq_imp_distinct_iff)
    then show "set (elems batch) \<inter> set (elems remainder) = {}" by simp
  qed
  with r m show "\<exists>batch remainder. ResourceParameterModifyChunk all K = Inr (batch, remainder)
            \<and> mset (elems batch) + mset (elems remainder) = mset (elems all)
            \<and> (distinct (elems all) \<longrightarrow> set (elems batch) \<inter> set (elems remainder) = {})"
    by blast
next
  show "\<forall>conn. \<exists>out batches. modifyLoop conn K all [] = Some (Inr out, batches)
            \<and> mset (concat (map elems batches)) \<subseteq># mset (elems all)
            \<and> (out = None \<longrightarrow> mset (concat (map elems batches)) = mset (elems all))
            \<and> ((\<forall>sent request. conn sent request = None) \<longrightarrow> out = None)
            \<and> (distinct (elems all) \<longrightarrow>
                 (\<forall>i j. i < j \<and> j < length batches \<longrightarrow>
                    set (elems (batches ! i)) \<inter> set (elems (batches ! j)) = {}))"
  proof
    fix conn
    from modifyLoop_run[OF assms, of conn "[]"] obtain out batches where
      run: "modifyLoop conn K all [] = Some (Inr out, batches)"
      and sub: "mset (concat (map elems batches)) \<subseteq># mset (elems all)"
      and eq: "out = None \<longrightarrow> mset (concat (map elems batches)) = mset (elems all)"
      and ok: "(\<forall>s q. conn s q = None) \<longrightarrow> out = None" by auto
    have "distinct (elems all) \<longrightarrow>
                 (\<forall>i j. i < j \<and> j < length batches \<longrightarrow>
                    set (elems (batches ! i)) \<inter> set (elems (batches ! j)) = {})"
    proof (intro impI allI)
      fix i j
      assume d: "distinct (elems all)" and ij: "i < j \<and> j < length batches"
      from distinct_of_submset[OF sub d] have "distinct (concat (map elems batches))" .
      from distinct_concat_disjoint[OF this, of i j] ij
      show "set (elems (batches ! i)) \<inter> set (elems (batches ! j)) = {}" by simp
    qed
    with run sub eq ok show "\<exists>out batches. modifyLoop conn K all [] = Some (Inr out, batches)
            \<and> mset (concat (map elems batches)) \<subseteq># mset (elems all)
            \<and> (out = None \<longrightarrow> mset (concat (map elems batches)) = mset (elems all))
            \<and> ((\<forall>sent request. conn sent request = None) \<longrightarrow> out = None)
            \<and> (distinct (elems all) \<longrightarrow>
                 (\<forall>i j. i < j \<and> j < length batches \<longrightarrow>
                    set (elems (batches ! i)) \<inter> set (elems (batches ! j)) = {}))"
      by blast
  qed
qed

theorem chunk_partition_witness:
  "(1::int) \<le> 2 \<and> well_formed example_parameters
   \<and> (\<exists>batch remainder. ResourceParameterModifyChunk example_parameters 2 = Inr (batch, remainder)
         \<and> mset (elems batch) + mset (elems remainder) = mset (elems example_parameters))
   \<and> (\<exists>out batches. modifyLoop (\<lambda>sent request. None) 2 example_parameters [] = Some (Inr out, batches)
         \<and> out = None \<and> mset (concat (map elems batches)) = mset (elems example_parameters))"
proof -
  have h1: "(1::int) \<le> 2" by simp
  note inst = chunk_partition[OF h1 example_wf]
  from inst have a: "\<exists>batch remainder. ResourceParameterModifyChunk example_parameters 2 = Inr (batch, remainder)
         \<and> mset (elems batch) + mset (elems remainder) = mset (elems example_parameters)" by blast
  from inst obtain out batches where
    "modifyLoop (\<lambda>sent request. None) 2 example_parameters [] = Some (Inr out, batches)"
    "out = None \<longrightarrow> mset (concat (map elems batches)) = mset (elems example_parameters)"
    "(\<forall>sent request. (\<lambda>sent request. None :: error option) sent request = None) \<longrightarrow> out = None"
    by blast
  then have b: "\<exists>out batches. modifyLoop (\<lambda>sent request. None) 2 example_parameters [] = Some (Inr out, batches)
         \<and> out = None \<and> mset (concat (map elems batches)) = mset (elems example_parameters)"
    by simp
  from h1 example_wf a b show ?thesis by blast
qed

text \<open>
  C2. For every chunk size \<open>K \<ge> 1\<close> the returned batch has at most \<open>K\<close> elements, and exactly
  \<open>K\<close> when the input has at least \<open>K\<close>; every batch the update loop sends has at most \<open>K\<close>.
\<close>

theorem chunk_capacity_bound:
  assumes "1 \<le> K" and "well_formed all"
  shows "(\<exists>batch remainder. ResourceParameterModifyChunk all K = Inr (batch, remainder)
            \<and> int (len batch) \<le> K \<and> (K \<le> int (len all) \<longrightarrow> int (len batch) = K))
    \<and> (\<forall>conn. \<exists>out batches. modifyLoop conn K all [] = Some (Inr out, batches)
            \<and> (\<forall>batch \<in> set batches. int (len batch) \<le> K))"
proof
  show "\<exists>batch remainder. ResourceParameterModifyChunk all K = Inr (batch, remainder)
            \<and> int (len batch) \<le> K \<and> (K \<le> int (len all) \<longrightarrow> int (len batch) = K)"
  proof (cases "int (len all) \<le> K")
    case True
    then show ?thesis using chunk_small[OF True] by auto
  next
    case False
    then have big: "K < int (len all)" by simp
    from chunk_large_props[OF assms(2) big] assms(1) show ?thesis by fastforce
  qed
  show "\<forall>conn. \<exists>out batches. modifyLoop conn K all [] = Some (Inr out, batches)
            \<and> (\<forall>batch \<in> set batches. int (len batch) \<le> K)"
  proof
    fix conn
    from modifyLoop_run[OF assms, of conn "[]"] show "\<exists>out batches.
      modifyLoop conn K all [] = Some (Inr out, batches) \<and> (\<forall>batch \<in> set batches. int (len batch) \<le> K)"
      by auto
  qed
qed

theorem chunk_capacity_bound_witness:
  "(1::int) \<le> 2
   \<and> well_formed (example_parameters)
   \<and> (\<exists>batch remainder.
        ResourceParameterModifyChunk (example_parameters) 2
          = Inr (batch, remainder) \<and> int (len batch) = 2)"
proof -
  have h1: "(1::int) \<le> 2" by simp
  have h2: "well_formed (example_parameters)"
    by (rule example_wf)
  have h3: "2 \<le> int (len (example_parameters))"
    by (simp add: example_len)
  from chunk_capacity_bound[OF h1 h2] h1 h2 h3 show ?thesis by blast
qed

text \<open>
  C3. An input of at most \<open>K\<close> elements (\<open>K \<ge> 1\<close>) is returned whole as the batch, with a nil
  remainder; the nil and the empty input give an empty batch and a nil remainder.
\<close>

theorem chunk_trivial_case:
  assumes "1 \<le> K"
  shows "(int (len all) \<le> K \<longrightarrow> ResourceParameterModifyChunk all K = Inr (all, None))
    \<and> ResourceParameterModifyChunk None K = Inr (None, None)
    \<and> ResourceParameterModifyChunk (Some []) K = Inr (Some [], None)"
  using assms by (simp add: ResourceParameterModifyChunk_def len_def)

theorem chunk_trivial_case_witness:
  "(1::int) \<le> 20
   \<and> int (len (Some [character_set_server, max_connections, character_set_client])) \<le> 20
   \<and> ResourceParameterModifyChunk (Some [character_set_server, max_connections, character_set_client]) 20
       = Inr (Some [character_set_server, max_connections, character_set_client], None)
   \<and> ResourceParameterModifyChunk None 20 = Inr (None, None)"
  using chunk_trivial_case[of 20 "Some [character_set_server, max_connections, character_set_client]"]
  by (simp add: len_def)

text \<open>
  C4, as stated, for every input: the batch lists the immediate \<open>character_set\<close> parameters
  first, the other immediate ones next and the \<open>pending-reboot\<close> ones last. An input that fits
  in one chunk is returned in arrival order, so the order fails there: below, a
  \<open>pending-reboot\<close> parameter is selected before an immediate \<open>character_set\<close> one.
\<close>

theorem chunk_priority_order_counterexample:
  "ResourceParameterModifyChunk (Some [character_set_server, character_set_client]) 2
     = Inr (Some [character_set_server, character_set_client], None)
   \<and> pending_reboot character_set_server \<and> charset_immediate character_set_client"
  by (simp add: ResourceParameterModifyChunk_def len_def pending_reboot_def charset_immediate_def
      example_defs)

text \<open>
  C4, amended. For an input of more than \<open>K\<close> elements (\<open>K \<ge> 1\<close>) the batch is the first \<open>K\<close>
  elements of the input listed class by class (immediate \<open>character_set\<close>, other immediate,
  \<open>pending-reboot\<close>), each class in arrival order; so no parameter of a later class comes
  before one of an earlier class.
\<close>

theorem chunk_priority_order:
  assumes "1 \<le> K" and "well_formed all" and "K < int (len all)"
  shows "\<exists>batch remainder. ResourceParameterModifyChunk all K = Inr (batch, remainder)
            \<and> elems batch = take (nat K) (prioritized (elems all))
            \<and> sorted (map priority (elems batch))"
proof -
  from chunk_large_props[OF assms(2,3)] assms(1) obtain b r where
    r: "ResourceParameterModifyChunk all K = Inr (b, r)"
    and t: "elems b = take (nat K) (prioritized (elems all))" by auto
  have "sorted (map priority (elems b))"
    unfolding t take_map[symmetric] by (rule sorted_wrt_take[OF sorted_prioritized])
  with r t show ?thesis by blast
qed

theorem chunk_priority_order_witness:
  "(1::int) \<le> 2 \<and> well_formed example_parameters \<and> 2 < int (len example_parameters)
   \<and> (\<exists>batch remainder. ResourceParameterModifyChunk example_parameters 2 = Inr (batch, remainder)
         \<and> elems batch = take (nat 2) (prioritized (elems example_parameters))
         \<and> sorted (map priority (elems batch)))"
proof -
  have h1: "(1::int) \<le> 2" by simp
  have h3: "2 < int (len example_parameters)" by (simp add: example_len)
  from chunk_priority_order[OF h1 example_wf h3] h1 example_wf h3 show ?thesis by blast
qed

text \<open>
  C5. For an input of more than \<open>K\<close> elements (\<open>K \<ge> 1\<close>) the function returns from inside one of
  the three passes, at some index \<open>i\<close> of what that pass iterates over, with a batch of
  exactly \<open>K\<close> elements. The remainder is the elements that pass skipped before \<open>i\<close> followed
  by the unscanned tail; it is a subsequence of the input (arrival order is kept) and holds
  exactly the entries that are not in the batch.
\<close>

theorem chunk_cut_mid_pass:
  assumes "1 \<le> K" and "well_formed all" and "K < int (len all)"
  shows "\<exists>batch remainder i. ResourceParameterModifyChunk all K = Inr (batch, remainder)
     \<and> int (len batch) = K
     \<and> mset (elems batch) + mset (elems remainder) = mset (elems all)
     \<and> subseq (elems remainder) (elems all)
     \<and> ((i < length (elems all)
          \<and> (elems batch, elems remainder) = cut_at charset_immediate [] (elems all) i)
        \<or> (i < length (after_pass1 (elems all))
          \<and> (elems batch, elems remainder) =
               cut_at (\<lambda>p. \<not> pending_reboot p) (filter charset_immediate (elems all))
                 (after_pass1 (elems all)) i)
        \<or> (i < length (after_pass2 (elems all))
          \<and> (elems batch, elems remainder) =
               cut_at (\<lambda>p. True)
                 (filter charset_immediate (elems all)
                    @ filter (\<lambda>p. \<not> pending_reboot p) (after_pass1 (elems all)))
                 (after_pass2 (elems all)) i))"
proof -
  have K0: "0 \<le> K" using assms(1) by simp
  from chunk_large[OF assms(2,3) K0] obtain b r i where
    r: "ResourceParameterModifyChunk all K = Inr (b, r)" and l: "int (len b) = K"
    and st: "(i < length (elems all)
          \<and> (elems b, elems r) = cut_at charset_immediate [] (elems all) i)
        \<or> (i < length (after_pass1 (elems all))
          \<and> (elems b, elems r) =
               cut_at (\<lambda>p. \<not> pending_reboot p) (filter charset_immediate (elems all))
                 (after_pass1 (elems all)) i)
        \<or> (i < length (after_pass2 (elems all))
          \<and> (elems b, elems r) =
               cut_at (\<lambda>p. True)
                 (filter charset_immediate (elems all)
                    @ filter (\<lambda>p. \<not> pending_reboot p) (after_pass1 (elems all)))
                 (after_pass2 (elems all)) i)"
    unfolding after_pass1_def after_pass2_def by blast
  from chunk_large_props[OF assms(2,3) K0] r have
    "mset (elems b) + mset (elems r) = mset (elems all)" "subseq (elems r) (elems all)" by auto
  with r l st show ?thesis by blast
qed

theorem chunk_cut_mid_pass_witness:
  "(1::int) \<le> 2 \<and> well_formed example_parameters \<and> 2 < int (len example_parameters)
   \<and> (\<exists>batch remainder. ResourceParameterModifyChunk example_parameters 2 = Inr (batch, remainder)
         \<and> int (len batch) = 2
         \<and> mset (elems batch) + mset (elems remainder) = mset (elems example_parameters)
         \<and> subseq (elems remainder) (elems example_parameters))"
proof -
  have h1: "(1::int) \<le> 2" by simp
  have h3: "2 < int (len example_parameters)" by (simp add: example_len)
  from chunk_cut_mid_pass[OF h1 example_wf h3] h1 example_wf h3 show ?thesis by blast
qed

text \<open>
  C6. For every chunk size \<open>K \<ge> 1\<close> and every slice of non-nil parameters the function returns
  a result (no panic). On an input of more than \<open>K\<close> elements the remainder has
  \<open>|all| - K\<close> elements, fewer than the input, and is not nil; otherwise it is nil. Hence the
  update loop returns, after at most \<open>batch_count K all\<close> requests, whatever the connection
  answers; so does the guarded loop of the update function with its chunk size of 20.
\<close>

theorem chunk_total_and_shrinks:
  assumes "1 \<le> K" and "well_formed all"
  shows "(\<exists>batch remainder. ResourceParameterModifyChunk all K = Inr (batch, remainder)
            \<and> (int (len all) \<le> K \<longrightarrow> remainder = None)
            \<and> (K < int (len all) \<longrightarrow>
                  int (len remainder) = int (len all) - K \<and> len remainder < len all
                  \<and> remainder \<noteq> None \<and> well_formed remainder))
    \<and> (\<forall>conn sent. \<exists>out batches. modifyLoop conn K all sent = Some (Inr out, sent @ batches)
            \<and> length batches \<le> batch_count K all)
    \<and> (\<forall>conn. \<exists>out batches. modifyParameters conn all = Some (Inr out, batches)
            \<and> length batches \<le> batch_count maxParamModifyChunk all)"
proof (intro conjI)
  show "\<exists>batch remainder. ResourceParameterModifyChunk all K = Inr (batch, remainder)
            \<and> (int (len all) \<le> K \<longrightarrow> remainder = None)
            \<and> (K < int (len all) \<longrightarrow>
                  int (len remainder) = int (len all) - K \<and> len remainder < len all
                  \<and> remainder \<noteq> None \<and> well_formed remainder)"
  proof (cases "int (len all) \<le> K")
    case True
    then show ?thesis using chunk_small[OF True] by simp
  next
    case False
    then have big: "K < int (len all)" by simp
    from chunk_large_props[OF assms(2) big] assms(1) obtain b r where
      ch: "ResourceParameterModifyChunk all K = Inr (b, r)" and lb: "int (len b) = K"
      and ms: "mset (elems b) + mset (elems r) = mset (elems all)" by auto
    note rem = chunk_large_remainder[OF ch lb ms big assms(2)]
    have "len r < len all" using rem(1) assms(1) by linarith
    with ch rem big show ?thesis by auto
  qed
  show "\<forall>conn sent. \<exists>out batches. modifyLoop conn K all sent = Some (Inr out, sent @ batches)
            \<and> length batches \<le> batch_count K all"
    using modifyLoop_run[OF assms] by blast
  show "\<forall>conn. \<exists>out batches. modifyParameters conn all = Some (Inr out, batches)
            \<and> length batches \<le> batch_count maxParamModifyChunk all"
  proof
    fix conn
    have k: "1 \<le> maxParamModifyChunk" by (simp add: maxParamModifyChunk_def)
    from modifyLoop_run[OF k assms(2), of conn "[]"] obtain out batches where
      "modifyLoop conn maxParamModifyChunk all [] = Some (Inr out, batches)"
      "length batches \<le> batch_count maxParamModifyChunk all" by auto
    then show "\<exists>out batches. modifyParameters conn all = Some (Inr out, batches)
            \<and> length batches \<le> batch_count maxParamModifyChunk all"
      by (cases "len all > 0") (auto simp: modifyParameters_def)
  qed
qed

theorem chunk_total_and_shrinks_witness:
  "(1::int) \<le> 2 \<and> well_formed example_parameters
   \<and> (\<exists>batch remainder. ResourceParameterModifyChunk example_parameters 2 = Inr (batch, remainder)
         \<and> int (len remainder) = 1 \<and> remainder \<noteq> None)
   \<and> (\<exists>out batches. modifyLoop (\<lambda>sent request. None) 2 example_parameters [] = Some (Inr out, batches)
         \<and> length batches \<le> 2)"
proof -
  have h1: "(1::int) \<le> 2" by simp
  have h3: "2 < int (len example_parameters)" by (simp add: example_len)
  note inst = chunk_total_and_shrinks[OF h1 example_wf]
  from inst h3 have a: "\<exists>batch remainder. ResourceParameterModifyChunk example_parameters 2 = Inr (batch, remainder)
         \<and> int (len remainder) = 1 \<and> remainder \<noteq> None"
    by (auto simp: example_len)
  have bc: "batch_count 2 example_parameters = 2"
    by (simp add: batch_count_def example_len) (simp add: example_parameters_def)
  from inst obtain out batches where
    "modifyLoop (\<lambda>sent request. None) 2 example_parameters [] = Some (Inr out, [] @ batches)"
    "length batches \<le> batch_count 2 example_parameters" by blast
  with bc have b: "\<exists>out batches. modifyLoop (\<lambda>sent request. None) 2 example_parameters [] = Some (Inr out, batches)
         \<and> length batches \<le> 2" by auto
  from h1 example_wf a b show ?thesis by blast
qed

section \<open>Read and Delete of the adapters\<close>

lemma TimedOut_iff: "TimedOut x \<longleftrightarrow> x = Some (TimeoutError None)"
  by (cases x rule: TimedOut.cases) auto

lemma codes_differ: "ErrCodeInvalidDBParameterGroupStateFault \<noteq> ErrCodeDBParameterGroupNotFoundFault"
  by (simp add: ErrCodeInvalidDBParameterGroupStateFault_def ErrCodeDBParameterGroupNotFoundFault_def)

lemma deleteAttempt_conflict:
  assumes "ErrCodeEquals x ErrCodeInvalidDBParameterGroupStateFault"
  shows "\<exists>e. x = Some e \<and> deleteAttempt x = Some (RetryableError e) \<and> \<not> TimedOut x"
proof -
  from assms obtain e where e: "x = Some e" by (cases x) auto
  with assms have c: "ErrCode e = Some ErrCodeInvalidDBParameterGroupStateFault" by simp
  then have "e \<noteq> TimeoutError None" by auto
  then have t: "\<not> TimedOut (Some e)" by (simp add: TimedOut_iff)
  have "deleteAttempt (Some e) = Some (RetryableError e)"
    unfolding deleteAttempt_def using c codes_differ by simp
  with e t show ?thesis by simp
qed

lemma RetryContext_conflicts:
  assumes "\<forall>j<k. ErrCodeEquals (resp (c + j)) ErrCodeInvalidDBParameterGroupStateFault"
  shows "RetryContext (k + m) (\<lambda>n. deleteAttempt (resp n)) c r
       = RetryContext m (\<lambda>n. deleteAttempt (resp n)) (c + k) (if k = 0 then r else resp (c + k - 1))"
  using assms
proof (induction k arbitrary: c r)
  case 0
  then show ?case by simp
next
  case (Suc k)
  let ?f = "\<lambda>n. deleteAttempt (resp n)"
  from Suc.prems have "ErrCodeEquals (resp (c + 0)) ErrCodeInvalidDBParameterGroupStateFault"
    by blast
  then have "ErrCodeEquals (resp c) ErrCodeInvalidDBParameterGroupStateFault" by simp
  from deleteAttempt_conflict[OF this] obtain e where
    e: "resp c = Some e" "deleteAttempt (resp c) = Some (RetryableError e)" by blast
  have sh: "\<forall>j<k. ErrCodeEquals (resp (Suc c + j)) ErrCodeInvalidDBParameterGroupStateFault"
  proof (intro allI impI)
    fix j assume "j < k"
    then have "Suc j < Suc k" by simp
    with Suc.prems have "ErrCodeEquals (resp (c + Suc j)) ErrCodeInvalidDBParameterGroupStateFault"
      by blast
    then show "ErrCodeEquals (resp (Suc c + j)) ErrCodeInvalidDBParameterGroupStateFault" by simp
  qed
  have "RetryContext (Suc k + m) ?f c r = RetryContext (k + m) ?f (Suc c) (Some e)"
    using e(2) by simp
  also have "\<dots> = RetryContext m ?f (Suc c + k) (if k = 0 then Some e else resp (Suc c + k - 1))"
    by (rule Suc.IH[OF sh])
  also have "\<dots> = RetryContext m ?f (c + Suc k) (if Suc k = 0 then r else resp (c + Suc k - 1))"
    using e(1) by (cases "k = 0") simp_all
  finally show ?case .
qed

lemma RetryContext_after_conflicts:
  assumes "\<forall>j<k. ErrCodeEquals (resp j) ErrCodeInvalidDBParameterGroupStateFault"
    and "k < window"
  shows "RetryContext window (\<lambda>n. deleteAttempt (resp n)) 0 None =
      (case deleteAttempt (resp k) of
         None \<Rightarrow> (None, Suc k)
       | Some (NonRetryableError e) \<Rightarrow> (Some e, Suc k)
       | Some (RetryableError e) \<Rightarrow>
           RetryContext (window - Suc k) (\<lambda>n. deleteAttempt (resp n)) (Suc k) (Some e))"
proof -
  let ?f = "\<lambda>n. deleteAttempt (resp n)"
  let ?r = "if k = 0 then None else resp (0 + k - 1)"
  define m where "m = window - Suc k"
  have m: "window = k + Suc m" using assms(2) by (simp add: m_def)
  have m': "window - Suc k = m" by (simp add: m_def)
  have pre: "\<forall>j<k. ErrCodeEquals (resp (0 + j)) ErrCodeInvalidDBParameterGroupStateFault"
    using assms(1) by simp
  have "RetryContext (k + Suc m) ?f 0 None = RetryContext (Suc m) ?f (0 + k) ?r"
    by (rule RetryContext_conflicts[OF pre])
  also have "\<dots> = RetryContext (Suc m) ?f k ?r" by simp
  also have "\<dots> = (case deleteAttempt (resp k) of
         None \<Rightarrow> (None, Suc k)
       | Some (NonRetryableError e) \<Rightarrow> (Some e, Suc k)
       | Some (RetryableError e) \<Rightarrow> RetryContext m ?f (Suc k) (Some e))"
    by (simp only: RetryContext.simps)
  finally have F: "RetryContext (k + Suc m) ?f 0 None = (case deleteAttempt (resp k) of
         None \<Rightarrow> (None, Suc k)
       | Some (NonRetryableError e) \<Rightarrow> (Some e, Suc k)
       | Some (RetryableError e) \<Rightarrow> RetryContext m ?f (Suc k) (Some e))" .
  have w: "k + Suc m = window" using m by simp
  from F[unfolded w] show ?thesis unfolding m_def .
qed

lemma RetryContext_all_conflicts:
  assumes "\<forall>j<window. ErrCodeEquals (resp j) ErrCodeInvalidDBParameterGroupStateFault"
    and "0 < window"
  shows "\<exists>e. resp (window - 1) = Some e \<and> \<not> TimedOut (Some e)
    \<and> RetryContext window (\<lambda>n. deleteAttempt (resp n)) 0 None = (Some e, window)"
proof -
  let ?f = "\<lambda>n. deleteAttempt (resp n)"
  have pre: "\<forall>j<window. ErrCodeEquals (resp (0 + j)) ErrCodeInvalidDBParameterGroupStateFault"
    using assms(1) by simp
  from assms have "ErrCodeEquals (resp (window - 1)) ErrCodeInvalidDBParameterGroupStateFault"
    by simp
  from deleteAttempt_conflict[OF this] obtain e where e: "resp (window - 1) = Some e"
    "\<not> TimedOut (Some e)" by auto
  have "RetryContext (window + 0) ?f 0 None
      = RetryContext 0 ?f (0 + window) (if window = 0 then None else resp (0 + window - 1))"
    by (rule RetryContext_conflicts[OF pre])
  also have "\<dots> = RetryContext 0 ?f window (Some e)" using assms(2) e(1) by simp
  also have "\<dots> = (Some e, window)" by simp
  finally have "RetryContext window ?f 0 None = (Some e, window)" by simp
  with e show ?thesis by blast
qed

text \<open>
  C7, as stated: a not-found lookup on a resource that was just created gives a hard error.
  The Read of the RDS parameter group does not look at \<open>IsNewResource\<close>: for a new resource
  too it clears the identity and returns no diagnostics.
\<close>

theorem read_not_found_new_resource_counterexample:
  "resourceParameterGroupRead
     (None, Some (AwsError ''DBParameterGroupNotFound'' ''DBParameterGroup not found: example''))
     (Inr (\<lparr>Id = ''example'', IsNewResource = True, attributes = []\<rparr>, []))
     \<lparr>Id = ''example'', IsNewResource = True, attributes = []\<rparr>
   = Inr (\<lparr>Id = [], IsNewResource = True, attributes = []\<rparr>, [])"
  by (simp add: resourceParameterGroupRead_def ErrCodeDBParameterGroupNotFoundFault_def SetId_def)

text \<open>
  C7, amended. When the lookup reports not-found, the Read of the RDS parameter group clears
  the identity and returns success, for a new resource as for an old one; the Read of the
  IPAM clears the identity and returns success when the resource is not new.
\<close>

theorem read_not_found_clears_identity:
  "(ErrCodeEquals (Some e) ErrCodeDBParameterGroupNotFoundFault \<longrightarrow>
      resourceParameterGroupRead (output, Some e) readParametersAndTags d = Inr (SetId [] d, []))
   \<and> (ipam_not_found describeIpams \<and> \<not> IsNewResource d' \<longrightarrow>
      resourceAwsVpcIpamRead describeIpams d' = Inr (SetId [] d', None))"
proof (intro conjI impI)
  assume "ErrCodeEquals (Some e) ErrCodeDBParameterGroupNotFoundFault"
  then show "resourceParameterGroupRead (output, Some e) readParametersAndTags d = Inr (SetId [] d, [])"
    by (simp add: resourceParameterGroupRead_def split: option.splits)
next
  assume a: "ipam_not_found describeIpams \<and> \<not> IsNewResource d'"
  obtain out e' where r: "describeIpams = (out, e')" by (cases describeIpams)
  from a r have "\<exists>e''. findIpamById describeIpams = (None, e'')
      \<and> (e'' = None \<or> ErrCodeEquals e'' InvalidIpamIdNotFound)"
    by (auto simp: ipam_not_found_def findIpamById_def split: option.splits list.splits)
  with a show "resourceAwsVpcIpamRead describeIpams d' = Inr (SetId [] d', None)"
    by (auto simp: resourceAwsVpcIpamRead_def)
qed

theorem read_not_found_clears_identity_witness:
  "ErrCodeEquals (Some (AwsError ''DBParameterGroupNotFound'' [])) ErrCodeDBParameterGroupNotFoundFault
   \<and> resourceParameterGroupRead (None, Some (AwsError ''DBParameterGroupNotFound'' []))
        (Inl NilPointerDereference) \<lparr>Id = ''example'', IsNewResource = False, attributes = []\<rparr>
      = Inr (\<lparr>Id = [], IsNewResource = False, attributes = []\<rparr>, [])
   \<and> ipam_not_found (Some \<lparr>Ipams = []\<rparr>, None)
   \<and> \<not> IsNewResource \<lparr>Id = ''ipam-1'', IsNewResource = False, attributes = []\<rparr>
   \<and> resourceAwsVpcIpamRead (Some \<lparr>Ipams = []\<rparr>, None)
        \<lparr>Id = ''ipam-1'', IsNewResource = False, attributes = []\<rparr>
      = Inr (\<lparr>Id = [], IsNewResource = False, attributes = []\<rparr>, None)"
  using read_not_found_clears_identity[of "AwsError ''DBParameterGroupNotFound'' []" None
      "Inl NilPointerDereference" "\<lparr>Id = ''example'', IsNewResource = False, attributes = []\<rparr>"
      "(Some \<lparr>Ipams = []\<rparr>, None)" "\<lparr>Id = ''ipam-1'', IsNewResource = False, attributes = []\<rparr>"]
  by (simp add: ErrCodeDBParameterGroupNotFoundFault_def ipam_not_found_def SetId_def)

text \<open>
  C8, as stated: every Delete treats a not-found response as success. The Delete of the
  IPAM returns the error of \<open>DeleteIpam\<close> whatever its code, after this one request.
\<close>

theorem delete_not_found_counterexample:
  "resourceAwsVpcIpamDelete (Some (AwsError ''InvalidIpamId.NotFound'' ''The ipam ID does not exist''))
     None \<lparr>Id = ''ipam-1'', IsNewResource = False, attributes = []\<rparr>
   = (Some (Errorf ''error deleting IPAM: (ipam-1)''
              (AwsError ''InvalidIpamId.NotFound'' ''The ipam ID does not exist'')),
      [CallDeleteIpam ''ipam-1''])"
  by (simp add: resourceAwsVpcIpamDelete_def)

text \<open>
  C8, amended. Delete of the RDS parameter group, after \<open>k\<close> delete requests answered by
  a state conflict: if request \<open>k\<close> is inside the retry window and answers not-found or
  succeeds, Delete succeeds; if it answers another error, that error is returned at once,
  with no further request; if the window ends after \<open>k\<close> conflicts, the last conflict is
  returned, after exactly \<open>window\<close> requests. Delete of the IPAM makes one delete request and
  returns its error, whatever the code, without a retry; when the request succeeds, a
  not-found error of the wait for the deletion is success.
\<close>

theorem delete_error_handling:
  assumes "\<forall>j<k. ErrCodeEquals (deleteDBParameterGroup j) ErrCodeInvalidDBParameterGroupStateFault"
  shows "(k < window \<and> ErrCodeEquals (deleteDBParameterGroup k) ErrCodeDBParameterGroupNotFoundFault
            \<longrightarrow> resourceParameterGroupDelete window deleteDBParameterGroup d = ([], Suc k))
    \<and> (k < window \<and> deleteDBParameterGroup k = None
            \<longrightarrow> resourceParameterGroupDelete window deleteDBParameterGroup d = ([], Suc k))
    \<and> (\<forall>e. k < window \<and> deleteDBParameterGroup k = Some e
            \<and> \<not> ErrCodeEquals (Some e) ErrCodeDBParameterGroupNotFoundFault
            \<and> \<not> ErrCodeEquals (Some e) ErrCodeInvalidDBParameterGroupStateFault
            \<and> \<not> TimedOut (Some e)
            \<longrightarrow> resourceParameterGroupDelete window deleteDBParameterGroup d =
                  ([Errorf (''deleting RDS DB Parameter Group ('' @ Id d @ '')'') e], Suc k))
    \<and> (\<forall>e. 0 < k \<and> k = window \<and> deleteDBParameterGroup (k - 1) = Some e
            \<longrightarrow> resourceParameterGroupDelete window deleteDBParameterGroup d =
                  ([Errorf (''deleting RDS DB Parameter Group ('' @ Id d @ '')'') e], window))
    \<and> (\<forall>e. deleteIpam = Some e
            \<longrightarrow> resourceAwsVpcIpamDelete deleteIpam waitIpamDeleted d' =
                  (Some (Errorf (''error deleting IPAM: ('' @ Id d' @ '')'') e),
                   [CallDeleteIpam (Id d')]))
    \<and> (deleteIpam = None \<and> ErrCodeEquals waitIpamDeleted InvalidIpamIdNotFound
            \<longrightarrow> fst (resourceAwsVpcIpamDelete deleteIpam waitIpamDeleted d') = None)"
proof -
  let ?f = "\<lambda>n. deleteAttempt (deleteDBParameterGroup n)"
  note step = RetryContext_after_conflicts[OF assms]
  have a: "k < window \<and> ErrCodeEquals (deleteDBParameterGroup k) ErrCodeDBParameterGroupNotFoundFault
            \<longrightarrow> resourceParameterGroupDelete window deleteDBParameterGroup d = ([], Suc k)"
  proof
    assume h: "k < window \<and> ErrCodeEquals (deleteDBParameterGroup k) ErrCodeDBParameterGroupNotFoundFault"
    then have "deleteAttempt (deleteDBParameterGroup k) = None" by (simp add: deleteAttempt_def)
    with step[of window] h have "RetryContext window ?f 0 None = (None, Suc k)" by simp
    then show "resourceParameterGroupDelete window deleteDBParameterGroup d = ([], Suc k)"
      by (simp add: resourceParameterGroupDelete_def)
  qed
  have b: "k < window \<and> deleteDBParameterGroup k = None
            \<longrightarrow> resourceParameterGroupDelete window deleteDBParameterGroup d = ([], Suc k)"
  proof
    assume h: "k < window \<and> deleteDBParameterGroup k = None"
    then have "deleteAttempt (deleteDBParameterGroup k) = None" by (simp add: deleteAttempt_def)
    with step[of window] h have "RetryContext window ?f 0 None = (None, Suc k)" by simp
    then show "resourceParameterGroupDelete window deleteDBParameterGroup d = ([], Suc k)"
      by (simp add: resourceParameterGroupDelete_def)
  qed
  have c: "\<forall>e. k < window \<and> deleteDBParameterGroup k = Some e
            \<and> \<not> ErrCodeEquals (Some e) ErrCodeDBParameterGroupNotFoundFault
            \<and> \<not> ErrCodeEquals (Some e) ErrCodeInvalidDBParameterGroupStateFault
            \<and> \<not> TimedOut (Some e)
            \<longrightarrow> resourceParameterGroupDelete window deleteDBParameterGroup d =
                  ([Errorf (''deleting RDS DB Parameter Group ('' @ Id d @ '')'') e], Suc k)"
  proof (intro allI impI)
    fix e
    assume h: "k < window \<and> deleteDBParameterGroup k = Some e
            \<and> \<not> ErrCodeEquals (Some e) ErrCodeDBParameterGroupNotFoundFault
            \<and> \<not> ErrCodeEquals (Some e) ErrCodeInvalidDBParameterGroupStateFault
            \<and> \<not> TimedOut (Some e)"
    then have "deleteAttempt (deleteDBParameterGroup k) = Some (NonRetryableError e)"
      by (simp add: deleteAttempt_def)
    with step[of window] h have "RetryContext window ?f 0 None = (Some e, Suc k)" by simp
    with h show "resourceParameterGroupDelete window deleteDBParameterGroup d =
                  ([Errorf (''deleting RDS DB Parameter Group ('' @ Id d @ '')'') e], Suc k)"
      by (simp add: resourceParameterGroupDelete_def)
  qed
  have dd: "\<forall>e. 0 < k \<and> k = window \<and> deleteDBParameterGroup (k - 1) = Some e
            \<longrightarrow> resourceParameterGroupDelete window deleteDBParameterGroup d =
                  ([Errorf (''deleting RDS DB Parameter Group ('' @ Id d @ '')'') e], window)"
  proof (intro allI impI)
    fix e
    assume h: "0 < k \<and> k = window \<and> deleteDBParameterGroup (k - 1) = Some e"
    with assms have "\<forall>j<window. ErrCodeEquals (deleteDBParameterGroup j) ErrCodeInvalidDBParameterGroupStateFault"
      by simp
    from RetryContext_all_conflicts[OF this] h obtain e' where
      "deleteDBParameterGroup (window - 1) = Some e'" "\<not> TimedOut (Some e')"
      "RetryContext window ?f 0 None = (Some e', window)" by auto
    moreover from this h have "e' = e" by auto
    ultimately show "resourceParameterGroupDelete window deleteDBParameterGroup d =
                  ([Errorf (''deleting RDS DB Parameter Group ('' @ Id d @ '')'') e], window)"
      by (simp add: resourceParameterGroupDelete_def)
  qed
  have e: "\<forall>e. deleteIpam = Some e
            \<longrightarrow> resourceAwsVpcIpamDelete deleteIpam waitIpamDeleted d' =
                  (Some (Errorf (''error deleting IPAM: ('' @ Id d' @ '')'') e),
                   [CallDeleteIpam (Id d')])"
    by (simp add: resourceAwsVpcIpamDelete_def)
  have f: "deleteIpam = None \<and> ErrCodeEquals waitIpamDeleted InvalidIpamIdNotFound
            \<longrightarrow> fst (resourceAwsVpcIpamDelete deleteIpam waitIpamDeleted d') = None"
    by (cases waitIpamDeleted) (auto simp: resourceAwsVpcIpamDelete_def)
  from a b c dd e f show ?thesis by blast
qed

theorem delete_error_handling_witness:
  "ErrCodeEquals (conflict_then_not_found 0) ErrCodeInvalidDBParameterGroupStateFault
   \<and> ErrCodeEquals (conflict_then_not_found 1) ErrCodeDBParameterGroupNotFoundFault
   \<and> resourceParameterGroupDelete 3 conflict_then_not_found
        \<lparr>Id = ''example'', IsNewResource = False, attributes = []\<rparr> = ([], 2)
   \<and> resourceParameterGroupDelete 3 access_denied
        \<lparr>Id = ''example'', IsNewResource = False, attributes = []\<rparr> =
        ([Errorf ''deleting RDS DB Parameter Group (example)''
            (AwsError ''AccessDenied'' ''not authorized'')], 1)
   \<and> ErrCodeEquals (always_conflict 0) ErrCodeInvalidDBParameterGroupStateFault
   \<and> ErrCodeEquals (always_conflict 1) ErrCodeInvalidDBParameterGroupStateFault
   \<and> ErrCodeEquals (always_conflict 2) ErrCodeInvalidDBParameterGroupStateFault
   \<and> resourceParameterGroupDelete 3 always_conflict
        \<lparr>Id = ''example'', IsNewResource = False, attributes = []\<rparr> =
        ([Errorf ''deleting RDS DB Parameter Group (example)''
            (AwsError ''InvalidDBParameterGroupState'' ''in use'')], 3)
   \<and> resourceAwsVpcIpamDelete (Some (AwsError ''IncorrectState'' ''ipam is busy'')) None
        \<lparr>Id = ''ipam-1'', IsNewResource = False, attributes = []\<rparr> =
        (Some (Errorf ''error deleting IPAM: (ipam-1)'' (AwsError ''IncorrectState'' ''ipam is busy'')),
         [CallDeleteIpam ''ipam-1''])
   \<and> fst (resourceAwsVpcIpamDelete None (Some (AwsError ''InvalidIpamId.NotFound'' ''gone''))
        \<lparr>Id = ''ipam-1'', IsNewResource = False, attributes = []\<rparr>) = None"
proof -
  let ?d = "\<lparr>Id = ''example'', IsNewResource = False, attributes = []\<rparr>"
  let ?d' = "\<lparr>Id = ''ipam-1'', IsNewResource = False, attributes = []\<rparr>"
  have h1: "\<forall>j<1. ErrCodeEquals (conflict_then_not_found j) ErrCodeInvalidDBParameterGroupStateFault"
    by (simp add: conflict_then_not_found_def ErrCodeInvalidDBParameterGroupStateFault_def)
  have n1: "ErrCodeEquals (conflict_then_not_found 1) ErrCodeDBParameterGroupNotFoundFault"
    by (simp add: conflict_then_not_found_def ErrCodeDBParameterGroupNotFoundFault_def)
  have h0: "\<forall>j<0. ErrCodeEquals (access_denied j) ErrCodeInvalidDBParameterGroupStateFault"
    by simp
  have h3: "\<forall>j<3. ErrCodeEquals (always_conflict j) ErrCodeInvalidDBParameterGroupStateFault"
    by (simp add: always_conflict_def ErrCodeInvalidDBParameterGroupStateFault_def)
  have ad0: "access_denied 0 = Some (AwsError ''AccessDenied'' ''not authorized'')"
    by (simp add: access_denied_def)
  have ac2: "always_conflict 2 = Some (AwsError ''InvalidDBParameterGroupState'' ''in use'')"
    by (simp add: always_conflict_def)
  have a: "resourceParameterGroupDelete 3 conflict_then_not_found ?d = ([], 2)"
    using delete_error_handling[OF h1, of 3 ?d None None ?d'] n1 by simp
  have c: "resourceParameterGroupDelete 3 access_denied ?d =
        ([Errorf ''deleting RDS DB Parameter Group (example)''
            (AwsError ''AccessDenied'' ''not authorized'')], 1)"
    using delete_error_handling[OF h0, of 3 ?d None None ?d'] ad0
    by (simp add: ErrCodeDBParameterGroupNotFoundFault_def
        ErrCodeInvalidDBParameterGroupStateFault_def)
  have d: "resourceParameterGroupDelete 3 always_conflict ?d =
        ([Errorf ''deleting RDS DB Parameter Group (example)''
            (AwsError ''InvalidDBParameterGroupState'' ''in use'')], 3)"
    using delete_error_handling[OF h3, of 3 ?d None None ?d'] ac2
    by simp
  have e: "resourceAwsVpcIpamDelete (Some (AwsError ''IncorrectState'' ''ipam is busy'')) None ?d' =
        (Some (Errorf ''error deleting IPAM: (ipam-1)'' (AwsError ''IncorrectState'' ''ipam is busy'')),
         [CallDeleteIpam ''ipam-1''])"
    using delete_error_handling[OF h0, of 3 ?d "Some (AwsError ''IncorrectState'' ''ipam is busy'')" None ?d']
    by simp
  have f: "fst (resourceAwsVpcIpamDelete None (Some (AwsError ''InvalidIpamId.NotFound'' ''gone'')) ?d') = None"
    using delete_error_handling[OF h0, of 3 ?d None "Some (AwsError ''InvalidIpamId.NotFound'' ''gone'')" ?d']
    by (simp add: InvalidIpamIdNotFound_def)
  have c0: "ErrCodeEquals (conflict_then_not_found 0) ErrCodeInvalidDBParameterGroupStateFault"
    using h1 by simp
  have a3: "ErrCodeEquals (always_conflict 0) ErrCodeInvalidDBParameterGroupStateFault"
    "ErrCodeEquals (always_conflict 1) ErrCodeInvalidDBParameterGroupStateFault"
    "ErrCodeEquals (always_conflict 2) ErrCodeInvalidDBParameterGroupStateFault"
    using h3 by simp_all
  from c0 n1 a c a3 d e f show ?thesis by blast
qed

text \<open>
  C9. The Read of an IPAM scope evaluates \<open>*scope.IpamArn\<close> before it looks at the error or
  at \<open>scope == nil\<close>: whenever the lookup returns no scope (an empty answer, a nil answer or
  an error) the function panics with a nil pointer dereference, for every resource data.
\<close>

theorem scope_read_not_found_panics:
  "resourceAwsVpcIpamScopeRead (Some \<lparr>IpamScopes = []\<rparr>, None) d = Inl NilPointerDereference
   \<and> resourceAwsVpcIpamScopeRead (None, None) d = Inl NilPointerDereference
   \<and> resourceAwsVpcIpamScopeRead (output, Some e) d = Inl NilPointerDereference"
  by (simp add: resourceAwsVpcIpamScopeRead_def findIpamScopeById_def split: option.splits)

lemma DefaultRegion_names:
  "expandAwsIpamOperatingRegionsDefaultRegion (map operating_region names) r = Inr (r \<in> set names)"
  by (induction names) (auto simp: operating_region_def)

lemma expand_names:
  "expandAwsIpamOperatingRegions (map operating_region names) = Inr (map Some names)"
  by (induction names) (auto simp: operating_region_def)

lemma description_cases:
  assumes "schema_conformant d names"
  shows "(case GetOk d ''description'' of
              (v, False) \<Rightarrow> Inr None
            | (IfString v, True) \<Rightarrow> Inr (Some v)
            | (_, True) \<Rightarrow> Inl TypeAssertionFailed) = Inr (configured_description d)"
  using assms
  by (cases "Get d ''description''")
     (auto simp: schema_conformant_def GetOk_def configured_description_def)

text \<open>
  C10. For a configuration that conforms to the schema, with the operating regions
  \<open>names\<close>: when the current region is not among them, Create of the IPAM returns the error
  "Must include ..." and makes no remote call; when it is, the first remote call is
  \<open>CreateIpam\<close> with the token, the configured description and all the regions.
\<close>

theorem create_requires_current_region:
  assumes "schema_conformant d names"
  shows "(current_region \<notin> set names \<longrightarrow>
            resourceAwsVpcIpamCreate createIpam describeIpams current_region token d =
              (Inr (d, Some (ErrorString (''Must include ('' @ current_region
                                @ '') as a operating_region''))), []))
    \<and> (current_region \<in> set names \<longrightarrow>
          (\<exists>outcome rest.
             resourceAwsVpcIpamCreate createIpam describeIpams current_region token d =
               (outcome,
                CallCreateIpam \<lparr>ClientToken = Some token,
                                CreateIpam_Description = configured_description d,
                                CreateIpam_OperatingRegions = map Some names\<rparr> # rest)))"
proof -
  from assms have ops: "Get d ''operating_regions'' = IfList (map operating_region names)"
    by (simp add: schema_conformant_def)
  note dc = description_cases[OF assms]
  show ?thesis
    unfolding resourceAwsVpcIpamCreate_def dc
    by (cases createIpam)
       (auto simp: ops DefaultRegion_names expand_names Let_def split: option.splits)
qed

theorem create_requires_current_region_witness:
  "schema_conformant example_ipam_config [''us-east-1'', ''us-west-2'']
   \<and> ''eu-west-1'' \<notin> set [''us-east-1'', ''us-west-2'']
   \<and> resourceAwsVpcIpamCreate (None, None) (None, None) ''eu-west-1'' ''token'' example_ipam_config =
        (Inr (example_ipam_config,
              Some (ErrorString ''Must include (eu-west-1) as a operating_region'')), [])
   \<and> ''us-west-2'' \<in> set [''us-east-1'', ''us-west-2'']
   \<and> (\<exists>outcome rest.
         resourceAwsVpcIpamCreate (None, None) (None, None) ''us-west-2'' ''token'' example_ipam_config =
           (outcome,
            CallCreateIpam \<lparr>ClientToken = Some ''token'', CreateIpam_Description = Some ''main'',
                            CreateIpam_OperatingRegions = [Some ''us-east-1'', Some ''us-west-2'']\<rparr>
              # rest))"
proof -
  have h: "schema_conformant example_ipam_config [''us-east-1'', ''us-west-2'']"
    by (simp add: schema_conformant_def example_ipam_config_def Get_def)
  have cd: "configured_description example_ipam_config = Some ''main''"
    by (simp add: configured_description_def example_ipam_config_def Get_def)
  from create_requires_current_region[OF h, of "''eu-west-1''" "(None, None)" "(None, None)" "''token''"]
  have a: "resourceAwsVpcIpamCreate (None, None) (None, None) ''eu-west-1'' ''token'' example_ipam_config =
        (Inr (example_ipam_config,
              Some (ErrorString ''Must include (eu-west-1) as a operating_region'')), [])"
    by simp
  from create_requires_current_region[OF h, of "''us-west-2''" "(None, None)" "(None, None)" "''token''"]
  have b: "\<exists>outcome rest.
         resourceAwsVpcIpamCreate (None, None) (None, None) ''us-west-2'' ''token'' example_ipam_config =
           (outcome,
            CallCreateIpam \<lparr>ClientToken = Some ''token'', CreateIpam_Description = Some ''main'',
                            CreateIpam_OperatingRegions = [Some ''us-east-1'', Some ''us-west-2'']\<rparr>
              # rest)"
    by (simp add: cd)
  from h a b show ?thesis by simp
qed

end
